theory Spec2Isabelle
  imports Main "HOL-Library.Word"
begin

section \<open>JavaScript values\<close>

text \<open>
  A JavaScript string is a sequence of UTF-16 code units: \<open>s.length\<close> counts units,
  \<open>===\<close> compares unit by unit. The model keeps exactly that: a string is a list of 16-bit
  words, and \<open>js\<close> writes an ASCII literal as such a list.
\<close>

type_synonym code_unit = "16 word"
type_synonym jsstring = "code_unit list"

definition js :: "string \<Rightarrow> jsstring" where
  "js s = map of_char s"

text \<open>\<open>String(n)\<close> of a non-negative integer (below \<open>10^21\<close>): its decimal digits.\<close>

fun number_to_string :: "nat \<Rightarrow> jsstring" where
  "number_to_string n =
     (if n < 10 then [of_nat (48 + n)]
      else number_to_string (n div 10) @ [of_nat (48 + n mod 10)])"

text \<open>How an async method ends: with a value, or with an exception that leaves it.\<close>

datatype 'a completion = Returned 'a | Threw

section \<open>The bridge state (class TelegramBridge of src/TelegramBridge.js)\<close>

text \<open>The value of a \<open>rateLimiter\<close> entry, \<open>{ count, resetTime }\<close>.\<close>

record rate_entry =
  count :: int
  resetTime :: int

text \<open>The configuration object \<open>telegram.rateLimit\<close>, \<open>{ messages, window }\<close>.\<close>

record rate_limit =
  messages :: int
  window :: int

text \<open>
  A WhatsApp message key, \<open>{ remoteJid, id, fromMe, participant }\<close>; \<open>participant\<close>
  is absent outside groups.
\<close>

datatype wa_key = WaKey (remoteJid: jsstring) (key_id: jsstring) (fromMe: bool)
  (participant: "jsstring option")

text \<open>
  The keys and values of \<open>messageIdMapping\<close>. A JavaScript \<open>Map\<close> takes any value as a
  key, so \<open>get\<close> can be asked for a Telegram message identifier as well as for a WhatsApp
  message key.
\<close>

datatype msg_ident = LocalId nat | RemoteKey wa_key

text \<open>
  A user object, \<open>{ name, phone, firstSeen, messageCount }\<close>. \<open>userMappings\<close> holds such
  objects by reference, and \<open>createUserMapping\<close> changes one in place.
\<close>

record user_data =
  ud_name :: "jsstring option"
  ud_phone :: jsstring
  ud_firstSeen :: int
  ud_messageCount :: nat

text \<open>
  A document of the collection \<open>bridge\<close>, \<open>{ type, data }\<close>, one constructor for each
  \<open>type\<close> the code writes or reads, and one for any other. The time stamps that the save
  operations add (\<open>createdAt\<close>, \<open>lastActivity\<close>, \<open>lastSeen\<close>, \<open>updatedAt\<close>) are never
  read back and are left out.
\<close>

datatype doc =
    ChatDoc jsstring nat
  | UserDoc jsstring user_data
  | ContactDoc jsstring jsstring
  | MessageDoc nat wa_key
  | EphemeralDoc jsstring bool int
  | OtherDoc jsstring

text \<open>The filters of \<open>updateOne\<close> and \<open>deleteOne\<close>: a \<open>type\<close> and the natural key.\<close>

datatype doc_filter =
    ChatFilter jsstring
  | UserFilter jsstring
  | ContactFilter jsstring
  | MessageFilter nat

datatype log_level = Debug | Info | Warn | Error

text \<open>The chat a Telegram call addresses: \<open>config.get('telegram.chatId')\<close> or a numeric id.\<close>

datatype chat_target = ConfigChat "jsstring option" | ChatId int

text \<open>Calls into parts of the bridge whose bodies are not modelled.\<close>

datatype call =
    SendWelcomeMessage nat jsstring bool
  | UpdateTopicNames
  | CommandDispatch jsstring
  | HandleTelegramMessage
  | HandleCallbackQuery
  | HandleMessageReaction

text \<open>
  What a method does to the outside, in the order it does it: logger calls, calls of the
  Telegram and WhatsApp clients, operations issued on the collection.
\<close>

datatype effect =
    Log log_level
  | TgSendMessage chat_target jsstring "nat option"
  | TgDeleteMessage chat_target nat
  | TgCreateForumTopic chat_target jsstring nat
  | TgEditForumTopic chat_target nat jsstring
  | TgAnswerCallbackQuery jsstring jsstring bool
  | WaGroupMetadata jsstring
  | DbUpdateOne doc_filter doc
  | DbDeleteOne doc_filter
  | DbFind
  | Invoke call

text \<open>
  The fields of the constructor that the modelled methods read or write, and the effects
  so far. Telegram user identifiers are the non-negative integers \<open>msg.from.id\<close>; topic and
  message identifiers are non-negative integers as well.

  The values of \<open>userMappings\<close> are references to user objects: \<open>user_objects\<close> gives the
  object at a reference, and \<open>next_user_object\<close> is the reference that the next object
  literal gets.

  \<open>this.collection\<close> is \<open>null\<close> from the constructor until \<open>initializeDatabase\<close> assigns
  it the collection \<open>bridge\<close> of the database, line 110. It stays \<open>null\<close> when the
  connection fails, since \<open>initializeDatabase\<close> catches the error and \<open>initialize\<close> goes
  on. \<open>collection_assigned\<close> tells whether \<open>this.collection\<close> has been assigned, and
  \<open>collection\<close> is the list of the documents of that database collection.
\<close>

record bridge =
  chatMappings :: "jsstring \<rightharpoonup> nat"
  userMappings :: "jsstring \<rightharpoonup> nat"
  user_objects :: "nat \<rightharpoonup> user_data"
  next_user_object :: nat
  contactMappings :: "jsstring \<rightharpoonup> jsstring"
  messageIdMapping :: "msg_ident \<rightharpoonup> msg_ident"
  ephemeralSettings :: "jsstring \<rightharpoonup> bool \<times> int"
  topicVerificationCache :: "jsstring \<rightharpoonup> bool"
  groupParticipants :: "jsstring \<rightharpoonup> jsstring list"
  authorizedUsers :: "nat set"
  blockedUsers :: "nat set"
  rateLimiter :: "jsstring \<rightharpoonup> rate_entry"
  pollingRetries :: nat
  botChatId :: "int option"
  collection_assigned :: bool
  collection :: "doc list"
  trace :: "effect list"

text \<open>
  The constructor: every map and set empty and \<open>this.collection\<close> \<open>null\<close>; the database
  collection is taken empty.
\<close>

definition new_bridge :: bridge where
  "new_bridge =
     \<lparr>chatMappings = Map.empty, userMappings = Map.empty, user_objects = Map.empty,
      next_user_object = 0, contactMappings = Map.empty,
      messageIdMapping = Map.empty, ephemeralSettings = Map.empty,
      topicVerificationCache = Map.empty, groupParticipants = Map.empty,
      authorizedUsers = {}, blockedUsers = {}, rateLimiter = Map.empty,
      pollingRetries = 0, botChatId = None, collection_assigned = False, collection = [],
      trace = []\<rparr>"

definition emit :: "effect \<Rightarrow> bridge \<Rightarrow> bridge" where
  "emit e s = s\<lparr>trace := trace s @ [e]\<rparr>"

section \<open>Mapping store\<close>

fun matches :: "doc_filter \<Rightarrow> doc \<Rightarrow> bool" where
  "matches (ChatFilter j) (ChatDoc j' t) = (j = j')"
| "matches (UserFilter u) (UserDoc u' d) = (u = u')"
| "matches (ContactFilter p) (ContactDoc p' n) = (p = p')"
| "matches (MessageFilter m) (MessageDoc m' k) = (m = m')"
| "matches f d = False"

text \<open>
  \<open>updateOne(filter, { $set: { type, data } }, { upsert: true })\<close> on the documents: the
  first document that matches gets the new type and data, and with no match the document
  is inserted.
\<close>

fun updateOne :: "doc_filter \<Rightarrow> doc \<Rightarrow> doc list \<Rightarrow> doc list" where
  "updateOne f d [] = [d]"
| "updateOne f d (x # xs) = (if matches f x then d # xs else x # updateOne f d xs)"

text \<open>\<open>deleteOne(filter)\<close>: the first document that matches is removed.\<close>

fun deleteOne :: "doc_filter \<Rightarrow> doc list \<Rightarrow> doc list" where
  "deleteOne f [] = []"
| "deleteOne f (x # xs) = (if matches f x then xs else x # deleteOne f xs)"

text \<open>
  The save operations, lines 192 to 305. Each evaluates \<open>this.collection.updateOne(...)\<close>
  inside \<open>try\<close>, awaits it, and sets the cache on the next line. While \<open>this.collection\<close> is
  \<open>null\<close> the member access throws a \<open>TypeError\<close> and no write is issued. Otherwise the
  write is issued, and \<open>write_ok\<close> tells whether the awaited promise resolved or was
  rejected. The \<open>catch\<close> block logs the error, whichever it is.
\<close>

definition saveMessageMapping :: "bridge \<Rightarrow> nat \<Rightarrow> wa_key \<Rightarrow> bool \<Rightarrow> bridge" where
  "saveMessageMapping s telegramMsgId whatsappKey write_ok =
     (if \<not> collection_assigned s then emit (Log Error) s
      else
        let s1 = emit (DbUpdateOne (MessageFilter telegramMsgId)
                         (MessageDoc telegramMsgId whatsappKey)) s
        in if write_ok then
             s1\<lparr>collection := updateOne (MessageFilter telegramMsgId)
                                 (MessageDoc telegramMsgId whatsappKey) (collection s1),
                 messageIdMapping :=
                   (messageIdMapping s1)(LocalId telegramMsgId \<mapsto> RemoteKey whatsappKey)\<rparr>
           else emit (Log Error) s1)"

definition saveChatMapping :: "bridge \<Rightarrow> jsstring \<Rightarrow> nat \<Rightarrow> bool \<Rightarrow> bridge" where
  "saveChatMapping s whatsappJid telegramTopicId write_ok =
     (if \<not> collection_assigned s then emit (Log Error) s
      else
        let s1 = emit (DbUpdateOne (ChatFilter whatsappJid)
                         (ChatDoc whatsappJid telegramTopicId)) s
        in if write_ok then
             emit (Log Debug)
               (s1\<lparr>collection := updateOne (ChatFilter whatsappJid)
                                    (ChatDoc whatsappJid telegramTopicId) (collection s1),
                    chatMappings := (chatMappings s1)(whatsappJid \<mapsto> telegramTopicId),
                    topicVerificationCache := (topicVerificationCache s1)(whatsappJid := None)\<rparr>)
           else emit (Log Error) s1)"

text \<open>
  \<open>saveUserMapping(whatsappId, userData)\<close>, line 258. \<open>userData\<close> is a reference to a user
  object. The document is built from the fields the object has when the write is issued
  (\<open>userData.messageCount || 0\<close> is \<open>messageCount\<close> itself for a number), and the cache
  keeps the reference it was given. Reading a field of \<open>undefined\<close> throws inside the
  \<open>try\<close>, before a write is issued.
\<close>

definition saveUserMapping :: "bridge \<Rightarrow> jsstring \<Rightarrow> nat \<Rightarrow> bool \<Rightarrow> bridge" where
  "saveUserMapping s whatsappId userData write_ok =
     (if \<not> collection_assigned s then emit (Log Error) s
      else
        case user_objects s userData of
          None \<Rightarrow> emit (Log Error) s
        | Some data \<Rightarrow>
            let s1 = emit (DbUpdateOne (UserFilter whatsappId) (UserDoc whatsappId data)) s
            in if write_ok then
                 emit (Log Debug)
                   (s1\<lparr>collection := updateOne (UserFilter whatsappId)
                                        (UserDoc whatsappId data) (collection s1),
                        userMappings := (userMappings s1)(whatsappId \<mapsto> userData)\<rparr>)
               else emit (Log Error) s1)"

definition saveContactMapping :: "bridge \<Rightarrow> jsstring \<Rightarrow> jsstring \<Rightarrow> bool \<Rightarrow> bridge" where
  "saveContactMapping s phone name write_ok =
     (if \<not> collection_assigned s then emit (Log Error) s
      else
        let s1 = emit (DbUpdateOne (ContactFilter phone) (ContactDoc phone name)) s
        in if write_ok then
             emit (Log Debug)
               (s1\<lparr>collection := updateOne (ContactFilter phone)
                                    (ContactDoc phone name) (collection s1),
                    contactMappings := (contactMappings s1)(phone \<mapsto> name)\<rparr>)
           else emit (Log Error) s1)"

text \<open>
  The \<open>switch\<close> of \<open>loadMappingsFromDb\<close>, line 158, for one document. A user document
  gives a new user object.
\<close>

fun load_mapping :: "bridge \<Rightarrow> doc \<Rightarrow> bridge" where
  "load_mapping s (ChatDoc whatsappJid telegramTopicId) =
     s\<lparr>chatMappings := (chatMappings s)(whatsappJid \<mapsto> telegramTopicId)\<rparr>"
| "load_mapping s (UserDoc whatsappId data) =
     s\<lparr>user_objects := (user_objects s)(next_user_object s \<mapsto> data),
       next_user_object := Suc (next_user_object s),
       userMappings := (userMappings s)(whatsappId \<mapsto> next_user_object s)\<rparr>"
| "load_mapping s (ContactDoc phone name) =
     s\<lparr>contactMappings := (contactMappings s)(phone \<mapsto> name)\<rparr>"
| "load_mapping s (MessageDoc telegramMsgId whatsappKey) =
     s\<lparr>messageIdMapping :=
         (messageIdMapping s)(LocalId telegramMsgId \<mapsto> RemoteKey whatsappKey)\<rparr>"
| "load_mapping s (EphemeralDoc chatJid enabled timer) =
     s\<lparr>ephemeralSettings := (ephemeralSettings s)(chatJid \<mapsto> (enabled, timer))\<rparr>"
| "load_mapping s (OtherDoc t) = s"

text \<open>
  \<open>loadMappingsFromDb()\<close>, line 153: \<open>find({}).toArray()\<close> gives the documents in
  collection order, or throws (\<open>find_ok\<close> false), which the \<open>catch\<close> block logs, as it logs
  the \<open>TypeError\<close> of \<open>this.collection.find\<close> while \<open>this.collection\<close> is \<open>null\<close>.
\<close>

definition loadMappingsFromDb :: "bridge \<Rightarrow> bool \<Rightarrow> bridge" where
  "loadMappingsFromDb s find_ok =
     (if \<not> collection_assigned s then emit (Log Error) s
      else
        let s1 = emit DbFind s
        in if find_ok then emit (Log Info) (foldl load_mapping s1 (collection s1))
           else emit (Log Error) s1)"

text \<open>
  The in-memory caches emptied, as a restart of the process leaves them; what
  \<open>this.collection\<close> is after the restart is left as it was.
\<close>

definition clear_caches :: "bridge \<Rightarrow> bridge" where
  "clear_caches s =
     s\<lparr>chatMappings := Map.empty, userMappings := Map.empty, user_objects := Map.empty,
       next_user_object := 0, contactMappings := Map.empty,
       messageIdMapping := Map.empty, ephemeralSettings := Map.empty\<rparr>"

text \<open>
  The \<open>whatsappJid\<close> of the chat documents, in collection order. The index that
  \<open>initializeDatabase\<close> creates on \<open>{ type, data.whatsappJid }\<close> is unique: the collection
  never holds two chat documents for one \<open>whatsappJid\<close>.
\<close>

fun chat_keys :: "doc list \<Rightarrow> jsstring list" where
  "chat_keys [] = []"
| "chat_keys (ChatDoc j t # ds) = j # chat_keys ds"
| "chat_keys (d # ds) = chat_keys ds"

text \<open>
  One call of \<open>saveChatMapping\<close> after another, each with the outcome of its write.
\<close>

fun saveChatMapping_seq :: "bridge \<Rightarrow> (jsstring \<times> nat \<times> bool) list \<Rightarrow> bridge" where
  "saveChatMapping_seq s [] = s"
| "saveChatMapping_seq s ((whatsappJid, telegramTopicId, write_ok) # rest) =
     saveChatMapping_seq (saveChatMapping s whatsappJid telegramTopicId write_ok) rest"

text \<open>What loading one document does to \<open>chatMappings\<close> alone.\<close>

fun chat_upd :: "(jsstring \<rightharpoonup> nat) \<Rightarrow> doc \<Rightarrow> (jsstring \<rightharpoonup> nat)" where
  "chat_upd m (ChatDoc j t) = m(j \<mapsto> t)"
| "chat_upd m d = m"

section \<open>Access control\<close>

text \<open>\<open>isAuthorized(userId)\<close>, line 124.\<close>

definition isAuthorized :: "bridge \<Rightarrow> nat \<Rightarrow> bool" where
  "isAuthorized s userId = (userId \<in> authorizedUsers s \<and> \<not> userId \<in> blockedUsers s)"


text \<open>
  \<open>config.get('telegram.rateLimit') || { messages: 30, window: 60000 }\<close>: the configured
  object, \<open>None\<close> when the key is absent.
\<close>

definition rateLimit_config :: "rate_limit option \<Rightarrow> rate_limit" where
  "rateLimit_config cfg =
     (case cfg of None \<Rightarrow> \<lparr>messages = 30, window = 60000\<rparr> | Some l \<Rightarrow> l)"

text \<open>The key \<open>`${userId}_${action}`\<close>.\<close>

definition rate_key :: "nat \<Rightarrow> jsstring \<Rightarrow> jsstring" where
  "rate_key userId action = number_to_string userId @ js ''_'' @ action"

text \<open>
  \<open>checkRateLimit(userId, action)\<close>, line 129; \<open>now\<close> is the value of \<open>Date.now()\<close>.
  The result is the returned boolean and the bridge after the call.
\<close>

definition checkRateLimit ::
  "bridge \<Rightarrow> rate_limit option \<Rightarrow> int \<Rightarrow> nat \<Rightarrow> jsstring \<Rightarrow> bool \<times> bridge" where
  "checkRateLimit s cfg now userId action =
     (let key = rate_key userId action;
          limit = rateLimit_config cfg
      in case rateLimiter s key of
           None \<Rightarrow>
             (True, s\<lparr>rateLimiter :=
                (rateLimiter s)(key \<mapsto> \<lparr>count = 1, resetTime = now + window limit\<rparr>)\<rparr>)
         | Some data \<Rightarrow>
             if now > resetTime data then
               (True, s\<lparr>rateLimiter :=
                  (rateLimiter s)(key \<mapsto> \<lparr>count = 1, resetTime = now + window limit\<rparr>)\<rparr>)
             else if count data \<ge> messages limit then (False, s)
             else
               (True, s\<lparr>rateLimiter :=
                  (rateLimiter s)(key \<mapsto> data\<lparr>count := count data + 1\<rparr>)\<rparr>))"

text \<open>
  A user issuing one action after another: the calls of \<open>checkRateLimit\<close> at the times
  \<open>ts\<close>, in order, with the booleans they return.
\<close>

fun checkRateLimit_seq ::
  "bridge \<Rightarrow> rate_limit option \<Rightarrow> nat \<Rightarrow> jsstring \<Rightarrow> int list \<Rightarrow> bool list \<times> bridge" where
  "checkRateLimit_seq s cfg userId action [] = ([], s)"
| "checkRateLimit_seq s cfg userId action (now # ts) =
     (case checkRateLimit s cfg now userId action of
        (r, s') \<Rightarrow>
          (case checkRateLimit_seq s' cfg userId action ts of
             (rs, s'') \<Rightarrow> (r # rs, s'')))"

section \<open>String operations\<close>

text \<open>\<open>s.startsWith(p)\<close>, \<open>s.endsWith(p)\<close>, \<open>s.includes(p)\<close> and \<open>s.split(c)[0]\<close>.\<close>

definition startsWith :: "jsstring \<Rightarrow> jsstring \<Rightarrow> bool" where
  "startsWith s p = (take (length p) s = p)"

definition endsWith :: "jsstring \<Rightarrow> jsstring \<Rightarrow> bool" where
  "endsWith s p = (length p \<le> length s \<and> drop (length s - length p) s = p)"

fun includes_js :: "jsstring \<Rightarrow> jsstring \<Rightarrow> bool" where
  "includes_js [] p = (p = [])"
| "includes_js (c # s) p = (startsWith (c # s) p \<or> includes_js s p)"

definition split_first :: "jsstring \<Rightarrow> code_unit \<Rightarrow> jsstring" where
  "split_first s c = takeWhile (\<lambda>x. x \<noteq> c) s"

text \<open>The code unit of \<open>@\<close>, and the class \<open>\d\<close> of a regular expression without flags.\<close>

definition at_sign :: code_unit where
  "at_sign = 64"

definition is_digit :: "code_unit \<Rightarrow> bool" where
  "is_digit c = (48 \<le> c \<and> c \<le> 57)"

text \<open>\<open>/^\d+$/.test(s)\<close>: one digit or more and nothing else.\<close>

definition all_digits :: "jsstring \<Rightarrow> bool" where
  "all_digits s = (s \<noteq> [] \<and> list_all is_digit s)"

text \<open>A possibly absent string used as a condition: \<open>undefined\<close> and \<open>''\<close> are falsy.\<close>

fun truthy :: "jsstring option \<Rightarrow> bool" where
  "truthy None = False"
| "truthy (Some s) = (s \<noteq> [])"

section \<open>Contacts\<close>

text \<open>\<open>isValidContactName(name, phone)\<close>, line 361.\<close>

definition isValidContactName :: "jsstring \<Rightarrow> jsstring \<Rightarrow> bool" where
  "isValidContactName name phone =
     (name \<noteq> [] \<and> name \<noteq> phone \<and> \<not> startsWith name (js ''+'') \<and> length name > 2
      \<and> \<not> all_digits name)"

text \<open>
  A contact as the WhatsApp store and the contact events give it: \<open>id\<close>, \<open>name\<close>,
  \<open>notify\<close> and \<open>verifiedName\<close>, each possibly absent.
\<close>

record contact =
  c_id :: "jsstring option"
  c_name :: "jsstring option"
  c_notify :: "jsstring option"
  c_verifiedName :: "jsstring option"

text \<open>The name extraction of \<open>syncContacts\<close>, lines 328 to 337.\<close>

definition contactName_of :: "contact \<Rightarrow> jsstring \<Rightarrow> jsstring option" where
  "contactName_of contact phone =
     (if truthy (c_name contact) \<and> isValidContactName (the (c_name contact)) phone
        then c_name contact
      else if truthy (c_notify contact) \<and> isValidContactName (the (c_notify contact)) phone
        then c_notify contact
      else if truthy (c_verifiedName contact)
              \<and> isValidContactName (the (c_verifiedName contact)) phone
        then c_verifiedName contact
      else None)"

text \<open>
  The loop of \<open>syncContacts\<close> over \<open>Object.entries(contacts)\<close>, lines 324 to 347, with the
  running \<open>syncedCount\<close>. An entry is the \<open>jid\<close>, the contact (\<open>None\<close> for a \<open>null\<close>
  value) and the outcome of the durable write, should this entry be saved.
\<close>

fun syncContacts_loop ::
  "bridge \<Rightarrow> nat \<Rightarrow> (jsstring \<times> contact option \<times> bool) list \<Rightarrow> bridge \<times> nat" where
  "syncContacts_loop s syncedCount [] = (s, syncedCount)"
| "syncContacts_loop s syncedCount ((jid, contact, write_ok) # rest) =
     (if jid = [] \<or> jid = js ''status@broadcast'' \<or> contact = None
        then syncContacts_loop s syncedCount rest
      else
        let phone = split_first jid at_sign;
            contactName = contactName_of (the contact) phone
        in if truthy contactName \<and> contactMappings s phone \<noteq> contactName
             then syncContacts_loop
                    (emit (Log Debug) (saveContactMapping s phone (the contactName) write_ok))
                    (Suc syncedCount) rest
           else syncContacts_loop s syncedCount rest)"

text \<open>
  \<open>syncContacts()\<close>, line 308; \<open>connected\<close> stands for \<open>this.whatsappBot?.sock?.user\<close>.
  \<open>updateTopicNames\<close> renames Telegram topics and leaves the maps alone.
\<close>

definition syncContacts ::
  "bridge \<Rightarrow> bool \<Rightarrow> (jsstring \<times> contact option \<times> bool) list \<Rightarrow> bridge" where
  "syncContacts s connected contactEntries =
     (if \<not> connected then emit (Log Warn) s
      else
        case syncContacts_loop (emit (Log Debug) (emit (Log Info) s)) 0 contactEntries of
          (s1, syncedCount) \<Rightarrow>
            let s2 = emit (Log Info) s1
            in if syncedCount > 0 then emit (Invoke UpdateTopicNames) s2 else s2)"

text \<open>
  The first \<open>contacts.update\<close> handler, line 2190. With each contact come the outcomes of
  the durable write and of \<open>editForumTopic\<close>, should they be reached.
\<close>

fun contacts_update_loop ::
  "bridge \<Rightarrow> nat \<Rightarrow> jsstring option \<Rightarrow> (contact \<times> bool \<times> bool) list \<Rightarrow> bridge \<times> nat" where
  "contacts_update_loop s updatedCount chatId [] = (s, updatedCount)"
| "contacts_update_loop s updatedCount chatId ((contact, write_ok, edit_ok) # rest) =
     (if truthy (c_id contact) \<and> truthy (c_name contact) then
        let phone = split_first (the (c_id contact)) at_sign;
            oldName = contactMappings s phone
        in if isValidContactName (the (c_name contact)) phone \<and> oldName \<noteq> c_name contact
           then
             let s1 = emit (Log Info)
                        (saveContactMapping s phone (the (c_name contact)) write_ok);
                 jid = the (c_id contact);
                 s2 = (case chatMappings s1 jid of
                         None \<Rightarrow> s1
                       | Some topicId \<Rightarrow>
                           let s' = emit (TgEditForumTopic (ConfigChat chatId) topicId
                                            (the (c_name contact))) s1
                           in if edit_ok then emit (Log Info) s' else emit (Log Debug) s')
             in contacts_update_loop s2 (Suc updatedCount) chatId rest
           else contacts_update_loop s updatedCount chatId rest
      else contacts_update_loop s updatedCount chatId rest)"

definition contacts_update_handler ::
  "bridge \<Rightarrow> jsstring option \<Rightarrow> (contact \<times> bool \<times> bool) list \<Rightarrow> bridge" where
  "contacts_update_handler s chatId contacts =
     (case contacts_update_loop s 0 chatId contacts of
        (s1, updatedCount) \<Rightarrow> if updatedCount > 0 then emit (Log Info) s1 else s1)"

text \<open>The \<open>contacts.upsert\<close> handler, line 2226.\<close>

fun contacts_upsert_loop :: "bridge \<Rightarrow> nat \<Rightarrow> (contact \<times> bool) list \<Rightarrow> bridge \<times> nat" where
  "contacts_upsert_loop s newCount [] = (s, newCount)"
| "contacts_upsert_loop s newCount ((contact, write_ok) # rest) =
     (if truthy (c_id contact) \<and> truthy (c_name contact) then
        let phone = split_first (the (c_id contact)) at_sign
        in if isValidContactName (the (c_name contact)) phone \<and> contactMappings s phone = None
           then contacts_upsert_loop
                  (emit (Log Info) (saveContactMapping s phone (the (c_name contact)) write_ok))
                  (Suc newCount) rest
           else contacts_upsert_loop s newCount rest
      else contacts_upsert_loop s newCount rest)"

definition contacts_upsert_handler :: "bridge \<Rightarrow> (contact \<times> bool) list \<Rightarrow> bridge" where
  "contacts_upsert_handler s contacts =
     (case contacts_upsert_loop s 0 contacts of
        (s1, newCount) \<Rightarrow> if newCount > 0 then emit (Log Info) s1 else s1)"

section \<open>User mappings\<close>

text \<open>
  \<open>createUserMapping(participant, whatsappMsg)\<close>, line 1106, the only caller of
  \<open>saveUserMapping\<close>; \<open>now\<close> is the value of \<open>new Date()\<close>. For a participant that
  \<open>userMappings\<close> has, \<open>messageCount\<close> is incremented on the cached object itself, and
  \<open>saveUserMapping\<close> is then called with that object. For any other participant a new object
  is made, with the name that \<open>contactMappings\<close> has for the phone number or \<open>null\<close>, and
  handed to \<open>saveUserMapping\<close>. The method has no \<open>try\<close> of its own.
\<close>

definition createUserMapping ::
  "bridge \<Rightarrow> jsstring \<Rightarrow> int \<Rightarrow> bool \<Rightarrow> unit completion \<times> bridge" where
  "createUserMapping s participantJid now write_ok =
     (case userMappings s participantJid of
        Some userData \<Rightarrow>
          (case user_objects s userData of
             None \<Rightarrow> (Threw, s)
           | Some data \<Rightarrow>
               (Returned (),
                saveUserMapping
                  (s\<lparr>user_objects := (user_objects s)
                        (userData \<mapsto> data\<lparr>ud_messageCount := ud_messageCount data + 1\<rparr>)\<rparr>)
                  participantJid userData write_ok))
      | None \<Rightarrow>
          let userPhone = split_first participantJid at_sign;
              userName = contactMappings s userPhone;
              userData = next_user_object s;
              s1 = s\<lparr>user_objects := (user_objects s)
                        (userData \<mapsto> \<lparr>ud_name = userName, ud_phone = userPhone,
                                      ud_firstSeen = now, ud_messageCount = 1\<rparr>),
                     next_user_object := Suc userData\<rparr>
          in (Returned (), emit (Log Debug) (saveUserMapping s1 participantJid userData write_ok)))"

text \<open>What \<open>this.userMappings.get(whatsappId)\<close> shows: the fields of the cached object.\<close>

definition cached_user :: "bridge \<Rightarrow> jsstring \<Rightarrow> user_data option" where
  "cached_user s whatsappId =
     (case userMappings s whatsappId of None \<Rightarrow> None | Some userData \<Rightarrow> user_objects s userData)"

section \<open>Telegram handlers\<close>

datatype chat_type = Private | Group | Supergroup | Channel

text \<open>
  What the handlers read of a Telegram message (\<open>msg.from.id\<close>, \<open>msg.chat.id\<close>,
  \<open>msg.chat.type\<close>, \<open>msg.is_topic_message\<close>, \<open>msg.text\<close>), of a callback query
  (\<open>query.id\<close>, \<open>query.from.id\<close>) and of a reaction (\<open>reaction.user.id\<close>).
\<close>

record tg_message =
  msg_from_id :: nat
  msg_chat_id :: int
  msg_chat_type :: chat_type
  msg_is_topic_message :: bool
  msg_text :: "jsstring option"

record callback_query =
  query_id :: jsstring
  query_from_id :: nat

record message_reaction =
  reaction_user_id :: nat

text \<open>The texts the handlers send; each starts with a symbol outside ASCII.\<close>

definition rate_limit_notice :: jsstring where
  "rate_limit_notice = [0x26A0, 0xFE0F] @ js '' Rate limit exceeded. Please slow down.''"

definition unauthorized_alert :: jsstring where
  "unauthorized_alert = [0x274C] @ js '' Unauthorized''"

definition not_authorized_reply :: jsstring where
  "not_authorized_reply = [0x274C] @ js '' You are not authorized to use this bot.''"

text \<open>
  The \<open>catch\<close> of \<open>wrapHandler\<close>, line 599: a handler whose last awaited call threw ends
  with \<open>logger.error\<close>.
\<close>

definition wrapHandler_catch :: "bool \<Rightarrow> bridge \<Rightarrow> bridge" where
  "wrapHandler_catch call_ok s = (if call_ok then s else emit (Log Error) s)"

text \<open>
  \<open>TelegramCommands.handleCommand(msg)\<close>, line 4582, up to the \<open>switch\<close>, which stands
  here as one call. \<open>send_ok\<close> is the outcome of \<open>sendMessage\<close>; the second component tells
  whether the method returned normally.
\<close>

definition handleCommand :: "bridge \<Rightarrow> tg_message \<Rightarrow> bool \<Rightarrow> bridge \<times> bool" where
  "handleCommand s msg send_ok =
     (if \<not> truthy (msg_text msg) \<or> \<not> startsWith (the (msg_text msg)) (js ''/'') then (s, True)
      else if \<not> isAuthorized s (msg_from_id msg) then
        (emit (TgSendMessage (ChatId (msg_chat_id msg)) not_authorized_reply None) s, send_ok)
      else (emit (Invoke (CommandDispatch (the (msg_text msg)))) s, True))"

text \<open>
  The \<open>message\<close> handler of \<open>setupTelegramHandlers\<close>, line 449, inside \<open>wrapHandler\<close>.
\<close>

definition message_handler ::
  "bridge \<Rightarrow> rate_limit option \<Rightarrow> int \<Rightarrow> tg_message \<Rightarrow> bool \<Rightarrow> bridge" where
  "message_handler s cfg now msg send_ok =
     (let s0 = s\<lparr>pollingRetries := 0\<rparr>
      in if \<not> isAuthorized s0 (msg_from_id msg) then emit (Log Warn) s0
         else
           case checkRateLimit s0 cfg now (msg_from_id msg) (js ''message'') of
             (allowed, s1) \<Rightarrow>
               if \<not> allowed then
                 wrapHandler_catch send_ok
                   (emit (TgSendMessage (ChatId (msg_chat_id msg)) rate_limit_notice None)
                      (emit (Log Warn) s1))
               else if msg_chat_type msg = Private then
                 (case handleCommand (s1\<lparr>botChatId := Some (msg_chat_id msg)\<rparr>) msg send_ok of
                    (s2, returned) \<Rightarrow> wrapHandler_catch returned s2)
               else if msg_chat_type msg = Supergroup \<and> msg_is_topic_message msg then
                 emit (Invoke HandleTelegramMessage) s1
               else s1)"

text \<open>The \<open>callback_query\<close> handler, line 474; \<open>answer_ok\<close> is the outcome of the answer.\<close>

definition callback_query_handler :: "bridge \<Rightarrow> callback_query \<Rightarrow> bool \<Rightarrow> bridge" where
  "callback_query_handler s query answer_ok =
     (if \<not> isAuthorized s (query_from_id query) then
        wrapHandler_catch answer_ok
          (emit (TgAnswerCallbackQuery (query_id query) unauthorized_alert True) s)
      else emit (Invoke HandleCallbackQuery) s)"

text \<open>The \<open>message_reaction\<close> handler, line 487.\<close>

definition message_reaction_handler :: "bridge \<Rightarrow> message_reaction \<Rightarrow> bridge" where
  "message_reaction_handler s reaction =
     (if \<not> isAuthorized s (reaction_user_id reaction) then s
      else emit (Invoke HandleMessageReaction) s)"

section \<open>The message queue of src/telegram/bridge.js\<close>

text \<open>
  The tasks that are pushed on \<open>messageQueue\<close>: the closure of \<open>syncMessage\<close>, line 232,
  which calls \<open>processWhatsAppMessage(whatsappMsg, text)\<close>, and the closure of the Telegram
  \<open>message\<close> handler, line 180, which calls \<open>handleTelegramMessage(msg)\<close>. A WhatsApp
  message is given by its key.
\<close>

datatype relay_task =
    ProcessWhatsAppMessage wa_key "jsstring option"
  | HandleTelegramMessage tg_message

text \<open>
  \<open>messageQueue\<close>, \<open>isProcessingQueue\<close> and the keys of \<open>activeCallNotifications\<close> of the
  class in src/telegram/bridge.js, and whether \<open>telegramBot\<close> has been set, with three
  fields that only record what happens: the tasks whose \<open>await task()\<close> has begun and not
  yet settled, every task begun so far, in the order they began, and the keys of the calls
  of \<open>handleCallNotification\<close> that are past their checks and have not ended.
\<close>

record 'task relay_queue =
  messageQueue :: "'task list"
  isProcessingQueue :: bool
  telegramBot :: bool
  activeCallNotifications :: "jsstring set"
  executing :: "'task list"
  begun :: "'task list"
  notifying :: "jsstring list"

text \<open>The constructor.\<close>

definition new_relay_queue :: "'task relay_queue" where
  "new_relay_queue =
     \<lparr>messageQueue = [], isProcessingQueue = False, telegramBot = False,
      activeCallNotifications = {}, executing = [], begun = [], notifying = []\<rparr>"

text \<open>
  What can happen to the queue: a producer pushes a task (\<open>syncMessage\<close>, line 232, and the
  Telegram \<open>message\<close> handler, line 180); the timer of \<open>startMessageQueueProcessor\<close> fires;
  the awaited promise of an executing task settles, by resolving or by throwing. And what
  happens beside it: the \<open>call\<close> handler, line 1185, calls \<open>handleCallNotification\<close> for a
  call event with its \<open>from\<close> and \<open>id\<close>; a call of \<open>handleCallNotification\<close> ends; the timer
  that it set, line 1156, deletes its key after 30 seconds.
\<close>

datatype 'task queue_event =
    Push 'task
  | Tick
  | Settle nat
  | Call jsstring jsstring
  | CallSettle nat
  | CallTimeout jsstring

text \<open>
  The timer callback, lines 60 to 73, runs to its \<open>await\<close> on \<open>Tick\<close> and from there to its
  end on \<open>Settle\<close> of the task it awaits. \<open>handleCallNotification\<close>, line 1147, runs on
  \<open>Call\<close> through its two checks to its first \<open>await\<close>, that of
  \<open>getOrCreateTopic('call@broadcast', ...)\<close>, which is followed by that of \<open>sendMessage\<close>;
  \<open>CallSettle\<close> is the end of such a call, by the last \<open>await\<close> resolving or by the
  \<open>catch\<close>.
\<close>

fun queue_step :: "'task relay_queue \<Rightarrow> 'task queue_event \<Rightarrow> 'task relay_queue" where
  "queue_step q (Push task) = q\<lparr>messageQueue := messageQueue q @ [task]\<rparr>"
| "queue_step q Tick =
     (if isProcessingQueue q \<or> length (messageQueue q) = 0 then q
      else q\<lparr>isProcessingQueue := True,
             messageQueue := tl (messageQueue q),
             executing := executing q @ [hd (messageQueue q)],
             begun := begun q @ [hd (messageQueue q)]\<rparr>)"
| "queue_step q (Settle i) =
     (if i < length (executing q)
        then q\<lparr>executing := take i (executing q) @ drop (Suc i) (executing q),
               isProcessingQueue := False\<rparr>
      else q)"
| "queue_step q (Call callerId callId) =
     (let callKey = callerId @ js ''_'' @ callId
      in if \<not> telegramBot q then q
         else if callKey \<in> activeCallNotifications q then q
         else q\<lparr>activeCallNotifications := insert callKey (activeCallNotifications q),
                notifying := notifying q @ [callKey]\<rparr>)"
| "queue_step q (CallSettle i) =
     (if i < length (notifying q)
        then q\<lparr>notifying := take i (notifying q) @ drop (Suc i) (notifying q)\<rparr>
      else q)"
| "queue_step q (CallTimeout callKey) =
     q\<lparr>activeCallNotifications := activeCallNotifications q - {callKey}\<rparr>"

text \<open>The tasks pushed by a series of events, in order.\<close>

fun pushed :: "'task queue_event list \<Rightarrow> 'task list" where
  "pushed [] = []"
| "pushed (Push task # evs) = task # pushed evs"
| "pushed (ev # evs) = pushed evs"

text \<open>
  The producers. \<open>syncMessage(whatsappMsg, text)\<close>, line 228, with the value of
  \<open>config.get('telegram.enabled')\<close>, and the Telegram \<open>message\<close> handler, line 177: each
  pushes its closure and returns.
\<close>

definition t_syncMessage ::
  "relay_task relay_queue \<Rightarrow> bool \<Rightarrow> wa_key \<Rightarrow> jsstring option \<Rightarrow> relay_task relay_queue" where
  "t_syncMessage q enabled whatsappMsg text =
     (if \<not> telegramBot q \<or> \<not> enabled then q
      else q\<lparr>messageQueue := messageQueue q @ [ProcessWhatsAppMessage whatsappMsg text]\<rparr>)"

definition t_message_handler :: "relay_task relay_queue \<Rightarrow> tg_message \<Rightarrow> relay_task relay_queue" where
  "t_message_handler q msg =
     (if msg_chat_type msg = Supergroup \<and> msg_is_topic_message msg
        then q\<lparr>messageQueue := messageQueue q @ [HandleTelegramMessage msg]\<rparr>
      else q)"

text \<open>
  The timer fires and the task it started settles, \<open>n\<close> times over.
\<close>

fun drain :: "nat \<Rightarrow> 'task queue_event list" where
  "drain 0 = []"
| "drain (Suc n) = Tick # Settle 0 # drain n"

section \<open>Topic lifecycle\<close>

text \<open>
  What the outside answers while \<open>getOrCreateTopic\<close> runs: the configured
  \<open>telegram.chatId\<close>, and for each awaited call its result, \<open>None\<close> or \<open>False\<close> when the
  call throws. \<open>sendMessage\<close> gives the identifier of the sent message, \<open>groupMetadata\<close>
  the subject and the participant identifiers, \<open>createForumTopic\<close> the
  \<open>message_thread_id\<close> of the new topic.
\<close>

record topic_env =
  env_chatId :: "jsstring option"
  env_sendMessage :: "nat option"
  env_deleteMessage :: bool
  env_deleteOne :: bool
  env_groupMetadata :: "(jsstring \<times> jsstring list) option"
  env_createForumTopic :: "nat option"
  env_updateOne :: bool

definition probe_text :: jsstring where
  "probe_text = [0xD83D, 0xDD0D]"

definition status_topic_name :: jsstring where
  "status_topic_name = [0xD83D, 0xDCCA] @ js '' Status Updates''"

definition call_topic_name :: jsstring where
  "call_topic_name = [0xD83D, 0xDCDE] @ js '' Call Logs''"

text \<open>
  \<open>verifyTopicExists(topicId)\<close>, line 744: a message is sent into the topic and deleted
  again; any throw gives \<open>false\<close>.
\<close>

definition verifyTopicExists :: "bridge \<Rightarrow> topic_env \<Rightarrow> nat \<Rightarrow> bool \<times> bridge" where
  "verifyTopicExists s env topicId =
     (let s1 = emit (TgSendMessage (ConfigChat (env_chatId env)) probe_text (Some topicId)) s
      in case env_sendMessage env of
           None \<Rightarrow> (False, s1)
         | Some message_id \<Rightarrow>
             (env_deleteMessage env,
              emit (TgDeleteMessage (ConfigChat (env_chatId env)) message_id) s1))"

text \<open>
  The name and icon colour of the new topic, lines 1164 to 1189, with the bridge after the
  group metadata has been fetched where it is.
\<close>

definition topic_name_and_icon ::
  "bridge \<Rightarrow> topic_env \<Rightarrow> jsstring \<Rightarrow> jsstring \<times> nat \<times> bridge" where
  "topic_name_and_icon s env chatJid =
     (if chatJid = js ''status@broadcast'' then (status_topic_name, 0xFF6B35, s)
      else if chatJid = js ''call@broadcast'' then (call_topic_name, 0xFF4757, s)
      else if endsWith chatJid (js ''@g.us'') then
        (case env_groupMetadata env of
           Some (subject, participants) \<Rightarrow>
             (subject, 0x6FB9F0,
              (emit (WaGroupMetadata chatJid) s)
                \<lparr>groupParticipants := (groupParticipants s)(chatJid \<mapsto> participants)\<rparr>)
         | None \<Rightarrow>
             (js ''Group Chat'', 0x6FB9F0, emit (Log Debug) (emit (WaGroupMetadata chatJid) s)))
      else
        let phone = split_first chatJid at_sign
        in (if truthy (contactMappings s phone) then the (contactMappings s phone)
            else js ''+'' @ phone,
            0x7ABA3C, s))"

text \<open>
  \<open>getOrCreateTopic\<close> from line 1153 on: the creation of a topic and of its mapping.
  \<open>sendWelcomeMessage\<close> catches what it throws.
\<close>

definition getOrCreateTopic_create ::
  "bridge \<Rightarrow> topic_env \<Rightarrow> jsstring \<Rightarrow> nat option completion \<times> bridge" where
  "getOrCreateTopic_create s env chatJid =
     (if \<not> truthy (env_chatId env) \<or> includes_js (the (env_chatId env)) (js ''YOUR_CHAT_ID'')
        then (Returned None, emit (Log Error) s)
      else
        case topic_name_and_icon s env chatJid of
          (topicName, iconColor, s1) \<Rightarrow>
            let s2 = emit (TgCreateForumTopic (ConfigChat (env_chatId env)) topicName iconColor) s1
            in case env_createForumTopic env of
                 None \<Rightarrow> (Returned None, emit (Log Error) s2)
               | Some message_thread_id \<Rightarrow>
                   let s3 = emit (Log Info)
                              (saveChatMapping s2 chatJid message_thread_id (env_updateOne env))
                   in (Returned (Some message_thread_id),
                       if chatJid \<noteq> js ''status@broadcast'' \<and> chatJid \<noteq> js ''call@broadcast''
                         then emit (Invoke (SendWelcomeMessage message_thread_id chatJid
                                              (endsWith chatJid (js ''@g.us'')))) s3
                       else s3))"

text \<open>
  \<open>getOrCreateTopic(chatJid, whatsappMsg)\<close>, line 1136. The \<open>deleteOne\<close> of the stale
  mapping is evaluated and awaited outside any \<open>try\<close>: when it throws, the method throws,
  and so it does, with no operation issued, while \<open>this.collection\<close> is \<open>null\<close>.
\<close>

definition getOrCreateTopic ::
  "bridge \<Rightarrow> topic_env \<Rightarrow> jsstring \<Rightarrow> nat option completion \<times> bridge" where
  "getOrCreateTopic s env chatJid =
     (case chatMappings s chatJid of
        None \<Rightarrow> getOrCreateTopic_create s env chatJid
      | Some topicId \<Rightarrow>
          (case verifyTopicExists s env topicId of
             (exists, s1) \<Rightarrow>
               if exists then (Returned (Some topicId), s1)
               else
                 let s2 = emit (Log Warn) s1;
                     s3 = s2\<lparr>chatMappings := (chatMappings s2)(chatJid := None)\<rparr>;
                     s4 = emit (DbDeleteOne (ChatFilter chatJid)) s3
                 in if \<not> collection_assigned s3 then (Threw, s3)
                    else if env_deleteOne env
                      then getOrCreateTopic_create
                             (s4\<lparr>collection := deleteOne (ChatFilter chatJid) (collection s4)\<rparr>)
                             env chatJid
                    else (Threw, s4)))"

section \<open>Topic lifecycle in src/telegram/bridge.js\<close>





section \<open>Overlapping calls of \<open>getOrCreateTopic\<close>\<close>

text \<open>
  An async method runs without interruption up to an \<open>await\<close> of a call to the outside and
  goes on when the answer arrives; between the two, other handlers run on the same bridge.
  A call of \<open>getOrCreateTopic\<close> is therefore also described by the \<open>await\<close> it is suspended
  at; \<open>Start\<close> is a call that has not begun, \<open>Finished\<close> one that has ended.
\<close>

datatype resume_point =
    Start
  | Await_sendMessage nat
  | Await_deleteMessage nat
  | Await_deleteOne
  | Await_groupMetadata
  | Await_createForumTopic
  | Await_updateOne nat
  | Await_sendWelcomeMessage nat
  | Finished "nat option completion"

text \<open>The answer to an awaited call: it resolved, with a value where one is used, or threw.\<close>

datatype response =
    Resolved
  | Rejected
  | Message nat
  | Metadata jsstring "jsstring list"
  | Topic nat

definition issue_createForumTopic ::
  "bridge \<Rightarrow> jsstring option \<Rightarrow> jsstring \<Rightarrow> nat \<Rightarrow> resume_point \<times> bridge" where
  "issue_createForumTopic s chatId topicName iconColor =
     (Await_createForumTopic, emit (TgCreateForumTopic (ConfigChat chatId) topicName iconColor) s)"

text \<open>From line 1153 to the first \<open>await\<close> after it.\<close>

definition begin_create :: "bridge \<Rightarrow> jsstring option \<Rightarrow> jsstring \<Rightarrow> resume_point \<times> bridge" where
  "begin_create s chatId chatJid =
     (if \<not> truthy chatId \<or> includes_js (the chatId) (js ''YOUR_CHAT_ID'')
        then (Finished (Returned None), emit (Log Error) s)
      else if chatJid = js ''status@broadcast''
        then issue_createForumTopic s chatId status_topic_name 0xFF6B35
      else if chatJid = js ''call@broadcast''
        then issue_createForumTopic s chatId call_topic_name 0xFF4757
      else if endsWith chatJid (js ''@g.us'')
        then (Await_groupMetadata, emit (WaGroupMetadata chatJid) s)
      else
        let phone = split_first chatJid at_sign
        in issue_createForumTopic s chatId
             (if truthy (contactMappings s phone) then the (contactMappings s phone)
              else js ''+'' @ phone)
             0x7ABA3C)"

text \<open>The probe has failed: lines 1144 to 1149, to the \<open>await\<close> of \<open>deleteOne\<close>.\<close>

definition probe_failed :: "bridge \<Rightarrow> jsstring \<Rightarrow> resume_point \<times> bridge" where
  "probe_failed s chatJid =
     (let s2 = emit (Log Warn) s;
          s3 = s2\<lparr>chatMappings := (chatMappings s2)(chatJid := None)\<rparr>
      in if \<not> collection_assigned s3 then (Finished Threw, s3)
         else (Await_deleteOne, emit (DbDeleteOne (ChatFilter chatJid)) s3))"

text \<open>From the end of \<open>saveChatMapping\<close>, line 1194, to the next \<open>await\<close> or the end.\<close>

definition mapping_saved :: "bridge \<Rightarrow> jsstring \<Rightarrow> nat \<Rightarrow> resume_point \<times> bridge" where
  "mapping_saved s1 chatJid message_thread_id =
     (let s2 = emit (Log Info) s1
      in if chatJid \<noteq> js ''status@broadcast'' \<and> chatJid \<noteq> js ''call@broadcast''
           then (Await_sendWelcomeMessage message_thread_id,
                 emit (Invoke (SendWelcomeMessage message_thread_id chatJid
                                 (endsWith chatJid (js ''@g.us'')))) s2)
         else (Finished (Returned (Some message_thread_id)), s2))"

text \<open>
  The call suspended at a point goes on with the answer to the call it awaited, up to its
  next \<open>await\<close> or its end.
\<close>

fun resume ::
  "bridge \<Rightarrow> jsstring option \<Rightarrow> jsstring \<Rightarrow> resume_point \<Rightarrow> response \<Rightarrow> resume_point \<times> bridge" where
  "resume s chatId chatJid Start r =
     (case chatMappings s chatJid of
        None \<Rightarrow> begin_create s chatId chatJid
      | Some topicId \<Rightarrow>
          (Await_sendMessage topicId,
           emit (TgSendMessage (ConfigChat chatId) probe_text (Some topicId)) s))"
| "resume s chatId chatJid (Await_sendMessage topicId) (Message message_id) =
     (Await_deleteMessage topicId, emit (TgDeleteMessage (ConfigChat chatId) message_id) s)"
| "resume s chatId chatJid (Await_sendMessage topicId) r = probe_failed s chatJid"
| "resume s chatId chatJid (Await_deleteMessage topicId) Resolved =
     (Finished (Returned (Some topicId)), s)"
| "resume s chatId chatJid (Await_deleteMessage topicId) r = probe_failed s chatJid"
| "resume s chatId chatJid Await_deleteOne Resolved =
     begin_create (s\<lparr>collection := deleteOne (ChatFilter chatJid) (collection s)\<rparr>) chatId chatJid"
| "resume s chatId chatJid Await_deleteOne r = (Finished Threw, s)"
| "resume s chatId chatJid Await_groupMetadata (Metadata subject participants) =
     issue_createForumTopic
       (s\<lparr>groupParticipants := (groupParticipants s)(chatJid \<mapsto> participants)\<rparr>)
       chatId subject 0x6FB9F0"
| "resume s chatId chatJid Await_groupMetadata r =
     issue_createForumTopic (emit (Log Debug) s) chatId (js ''Group Chat'') 0x6FB9F0"
| "resume s chatId chatJid Await_createForumTopic (Topic message_thread_id) =
     (if \<not> collection_assigned s
        then mapping_saved (emit (Log Error) s) chatJid message_thread_id
      else
        (Await_updateOne message_thread_id,
         emit (DbUpdateOne (ChatFilter chatJid) (ChatDoc chatJid message_thread_id)) s))"
| "resume s chatId chatJid Await_createForumTopic r =
     (Finished (Returned None), emit (Log Error) s)"
| "resume s chatId chatJid (Await_updateOne message_thread_id) r =
     mapping_saved
       (if r = Resolved then
          emit (Log Debug)
            (s\<lparr>collection := updateOne (ChatFilter chatJid)
                                (ChatDoc chatJid message_thread_id) (collection s),
               chatMappings := (chatMappings s)(chatJid \<mapsto> message_thread_id),
               topicVerificationCache := (topicVerificationCache s)(chatJid := None)\<rparr>)
        else emit (Log Error) s)
       chatJid message_thread_id"
| "resume s chatId chatJid (Await_sendWelcomeMessage message_thread_id) r =
     (Finished (Returned (Some message_thread_id)), s)"
| "resume s chatId chatJid (Finished c) r = (Finished c, s)"

text \<open>
  Calls in progress on one bridge, each with its \<open>chatJid\<close>; an event lets the call at an
  index go on with an answer.
\<close>

fun deliver ::
  "jsstring option \<Rightarrow> bridge \<times> (jsstring \<times> resume_point) list \<Rightarrow> nat \<times> response
     \<Rightarrow> bridge \<times> (jsstring \<times> resume_point) list" where
  "deliver chatId (s, calls) (i, r) =
     (if i < length calls then
        case resume s chatId (fst (calls ! i)) (snd (calls ! i)) r of
          (p, s') \<Rightarrow> (s', calls[i := (fst (calls ! i), p)])
      else (s, calls))"

text \<open>The answer that an environment of the sequential reading gives at a point.\<close>

fun respond :: "topic_env \<Rightarrow> resume_point \<Rightarrow> response" where
  "respond env (Await_sendMessage topicId) =
     (case env_sendMessage env of None \<Rightarrow> Rejected | Some message_id \<Rightarrow> Message message_id)"
| "respond env (Await_deleteMessage topicId) =
     (if env_deleteMessage env then Resolved else Rejected)"
| "respond env Await_deleteOne = (if env_deleteOne env then Resolved else Rejected)"
| "respond env Await_groupMetadata =
     (case env_groupMetadata env of
        None \<Rightarrow> Rejected
      | Some (subject, participants) \<Rightarrow> Metadata subject participants)"
| "respond env Await_createForumTopic =
     (case env_createForumTopic env of
        None \<Rightarrow> Rejected
      | Some message_thread_id \<Rightarrow> Topic message_thread_id)"
| "respond env (Await_updateOne message_thread_id) =
     (if env_updateOne env then Resolved else Rejected)"
| "respond env p = Resolved"

text \<open>One call alone on the bridge, resumed \<open>n\<close> times with the answers of \<open>env\<close>.\<close>

fun run_alone ::
  "nat \<Rightarrow> bridge \<Rightarrow> topic_env \<Rightarrow> jsstring \<Rightarrow> resume_point \<Rightarrow> resume_point \<times> bridge" where
  "run_alone 0 s env chatJid p = (p, s)"
| "run_alone (Suc n) s env chatJid p =
     (case resume s (env_chatId env) chatJid p (respond env p) of
        (p', s') \<Rightarrow> run_alone n s' env chatJid p')"

text \<open>
  The end of \<open>getOrCreateTopic_create\<close>, from the answer to \<open>createForumTopic\<close> on.
\<close>

definition created_tail :: "bridge \<Rightarrow> topic_env \<Rightarrow> jsstring \<Rightarrow> nat option completion \<times> bridge" where
  "created_tail s2 env chatJid =
     (case env_createForumTopic env of
        None \<Rightarrow> (Returned None, emit (Log Error) s2)
      | Some message_thread_id \<Rightarrow>
          let s3 = emit (Log Info)
                     (saveChatMapping s2 chatJid message_thread_id (env_updateOne env))
          in (Returned (Some message_thread_id),
              if chatJid \<noteq> js ''status@broadcast'' \<and> chatJid \<noteq> js ''call@broadcast''
                then emit (Invoke (SendWelcomeMessage message_thread_id chatJid
                                     (endsWith chatJid (js ''@g.us'')))) s3
              else s3))"

section \<open>Concrete inputs\<close>

text \<open>
  A command sent to the bot in a private chat, the press of an inline button, and a
  contact of the WhatsApp store.
\<close>

definition start_command :: tg_message where
  "start_command =
     \<lparr>msg_from_id = 5, msg_chat_id = 5, msg_chat_type = Private, msg_is_topic_message = False,
      msg_text = Some (js ''/start'')\<rparr>"

definition button_query :: callback_query where
  "button_query = \<lparr>query_id = js ''q1'', query_from_id = 5\<rparr>"

definition alice :: contact where
  "alice =
     \<lparr>c_id = Some (js ''491@s.whatsapp.net''), c_name = Some (js ''Alice''), c_notify = None,
      c_verifiedName = None\<rparr>"

text \<open>
  The class of src/telegram/bridge.js once \<open>initialize\<close> has set \<open>telegramBot\<close>, a
  message in a forum topic and the key of a WhatsApp message.
\<close>

definition started_queue :: "relay_task relay_queue" where
  "started_queue = new_relay_queue\<lparr>telegramBot := True\<rparr>"

definition topic_message :: tg_message where
  "topic_message =
     \<lparr>msg_from_id = 5, msg_chat_id = - 100, msg_chat_type = Supergroup,
      msg_is_topic_message = True, msg_text = Some (js ''hi'')\<rparr>"

definition hello_key :: wa_key where
  "hello_key = WaKey (js ''1@s.whatsapp.net'') (js ''3EB0'') False None"

text \<open>
  The bridge once \<open>initializeDatabase\<close> has assigned \<open>this.collection\<close>, on an empty
  database; and that bridge with one user in the cache, who has sent four messages.
\<close>

definition connected_bridge :: bridge where
  "connected_bridge = new_bridge\<lparr>collection_assigned := True\<rparr>"

definition known_user_bridge :: bridge where
  "known_user_bridge =
     connected_bridge
       \<lparr>userMappings := [js ''2@s.whatsapp.net'' \<mapsto> 0],
        user_objects :=
          [0 \<mapsto> \<lparr>ud_name = None, ud_phone = js ''2'', ud_firstSeen = 0, ud_messageCount = 4\<rparr>],
        next_user_object := 1\<rparr>"





section \<open>Notions used in the proofs\<close>

text \<open>The number that a string of decimal digits denotes.\<close>

definition digits_value :: "jsstring \<Rightarrow> nat" where
  "digits_value s = foldl (\<lambda>a c. 10 * a + (unat c - 48)) 0 s"

text \<open>
  The contact names of \<open>s'\<close>, in the cache and in the collection, are those of \<open>s\<close> or
  pass \<open>isValidContactName\<close> for their phone number.
\<close>

definition kept :: "bridge \<Rightarrow> bridge \<Rightarrow> bool" where
  "kept s s' \<longleftrightarrow>
     (\<forall>p n. contactMappings s' p = Some n \<longrightarrow>
        contactMappings s p = Some n \<or> isValidContactName n p)
     \<and> (\<forall>p n. ContactDoc p n \<in> set (collection s') \<longrightarrow>
        ContactDoc p n \<in> set (collection s) \<or> isValidContactName n p)"

text \<open>The flag \<open>isProcessingQueue\<close> is set exactly while one task executes.\<close>

definition queue_inv :: "'task relay_queue \<Rightarrow> bool" where
  "queue_inv q \<longleftrightarrow> length (executing q) \<le> 1 \<and> (isProcessingQueue q \<longleftrightarrow> executing q \<noteq> [])"

section \<open>Access control: proofs\<close>


subsection \<open>The fixed window of \<open>checkRateLimit\<close>\<close>

text \<open>
  The key is a decimal numeral, an underscore and the action: different pairs of user and
  action have different keys, and a call touches the entry of its own pair only.
\<close>

lemma unat_digit: "d < 10 \<Longrightarrow> unat (48 + word_of_nat d :: code_unit) = 48 + d"
  by (simp add: unat_word_ariths unat_of_nat)

lemma is_digit_of_nat: "d < 10 \<Longrightarrow> is_digit (48 + word_of_nat d)"
proof -
  assume d: "d < 10"
  have "unat (48 :: code_unit) \<le> unat (48 + word_of_nat d :: code_unit)"
    using unat_digit [OF d] by simp
  moreover have "unat (48 + word_of_nat d :: code_unit) \<le> unat (57 :: code_unit)"
    using unat_digit [OF d] d by simp
  ultimately show ?thesis
    unfolding is_digit_def word_le_nat_alt by blast
qed

lemma number_to_string_digits: "list_all is_digit (number_to_string n)"
proof (induction n rule: number_to_string.induct)
  case (1 n)
  show ?case
  proof (cases "n < 10")
    case True
    then show ?thesis by (subst number_to_string.simps) (simp add: is_digit_of_nat)
  next
    case False
    have "n mod 10 < 10" by simp
    then show ?thesis using False 1
      by (subst number_to_string.simps) (simp add: is_digit_of_nat del: number_to_string.simps)
  qed
qed

lemma digits_value_number_to_string: "digits_value (number_to_string n) = n"
proof (induction n rule: number_to_string.induct)
  case (1 n)
  show ?case
  proof (cases "n < 10")
    case True
    then show ?thesis
      by (subst number_to_string.simps) (simp add: digits_value_def unat_digit)
  next
    case False
    have m: "n mod 10 < 10" by simp
    have "digits_value (number_to_string n)
            = 10 * digits_value (number_to_string (n div 10))
              + (unat (48 + word_of_nat (n mod 10) :: code_unit) - 48)"
      using False by (subst number_to_string.simps) (simp add: digits_value_def del: number_to_string.simps)
    also have "\<dots> = 10 * (n div 10) + n mod 10"
      using 1 False unat_digit [OF m] by simp
    finally show ?thesis by simp
  qed
qed

lemma number_to_string_inject: "number_to_string m = number_to_string n \<Longrightarrow> m = n"
  using digits_value_number_to_string [of m] digits_value_number_to_string [of n] by simp

lemma takeWhile_rate_key: "takeWhile is_digit (rate_key u a) = number_to_string u"
proof -
  have nd: "\<not> is_digit (of_char CHR ''_'')"
    by (simp add: is_digit_def)
  have "\<forall>c\<in>set (number_to_string u). is_digit c"
    using number_to_string_digits [of u] by (simp add: list_all_iff)
  then show ?thesis
    using nd by (simp add: rate_key_def js_def takeWhile_tail del: number_to_string.simps)
qed

lemma rate_key_inject: "rate_key u a = rate_key u' a' \<longleftrightarrow> u = u' \<and> a = a'"
proof
  assume e: "rate_key u a = rate_key u' a'"
  have "number_to_string u = number_to_string u'"
    using takeWhile_rate_key [of u a] takeWhile_rate_key [of u' a'] e by simp
  then have u: "u = u'" by (rule number_to_string_inject)
  then show "u = u' \<and> a = a'" using e by (simp add: rate_key_def del: number_to_string.simps)
next
  assume "u = u' \<and> a = a'"
  then show "rate_key u a = rate_key u' a'" by simp
qed

lemma checkRateLimit_other_keys:
  "(u', a') \<noteq> (u, a) \<Longrightarrow>
   rateLimiter (snd (checkRateLimit s cfg now u a)) (rate_key u' a') = rateLimiter s (rate_key u' a')"
  by (auto simp: checkRateLimit_def Let_def rate_key_inject split: option.splits)

lemma checkRateLimit_first:
  "rateLimiter s (rate_key u a) = None \<Longrightarrow>
   checkRateLimit s cfg now u a =
     (True, s\<lparr>rateLimiter := (rateLimiter s)(rate_key u a \<mapsto>
        \<lparr>count = 1, resetTime = now + window (rateLimit_config cfg)\<rparr>)\<rparr>)"
  by (simp add: checkRateLimit_def)

lemma checkRateLimit_expired:
  "rateLimiter s (rate_key u a) = Some d \<Longrightarrow> resetTime d < now \<Longrightarrow>
   checkRateLimit s cfg now u a =
     (True, s\<lparr>rateLimiter := (rateLimiter s)(rate_key u a \<mapsto>
        \<lparr>count = 1, resetTime = now + window (rateLimit_config cfg)\<rparr>)\<rparr>)"
  by (simp add: checkRateLimit_def)

lemma checkRateLimit_counted:
  "rateLimiter s (rate_key u a) = Some d \<Longrightarrow> now \<le> resetTime d \<Longrightarrow>
   count d < messages (rateLimit_config cfg) \<Longrightarrow>
   checkRateLimit s cfg now u a =
     (True, s\<lparr>rateLimiter := (rateLimiter s)(rate_key u a \<mapsto> d\<lparr>count := count d + 1\<rparr>)\<rparr>)"
  by (simp add: checkRateLimit_def)

lemma checkRateLimit_rejected:
  "rateLimiter s (rate_key u a) = Some d \<Longrightarrow> now \<le> resetTime d \<Longrightarrow>
   messages (rateLimit_config cfg) \<le> count d \<Longrightarrow>
   checkRateLimit s cfg now u a = (False, s)"
  by (simp add: checkRateLimit_def)

lemma checkRateLimit_seq_in_window:
  "rateLimiter s (rate_key u a) = Some d \<Longrightarrow> \<forall>t\<in>set ts. t \<le> resetTime d \<Longrightarrow>
   checkRateLimit_seq s cfg u a ts = (rs, s') \<Longrightarrow>
   rs = replicate (min (length ts) (nat (messages (rateLimit_config cfg) - count d))) True
        @ replicate (length ts - nat (messages (rateLimit_config cfg) - count d)) False
   \<and> rateLimiter s' (rate_key u a) =
       Some (d\<lparr>count := count d + int (min (length ts) (nat (messages (rateLimit_config cfg) - count d)))\<rparr>)"
proof (induction ts arbitrary: s d rs s')
  case Nil
  then show ?case by simp
next
  case (Cons t ts)
  let ?m = "messages (rateLimit_config cfg)"
  have tw: "t \<le> resetTime d" and rest: "\<forall>t\<in>set ts. t \<le> resetTime d"
    using Cons.prems(2) by simp_all
  show ?case
  proof (cases "count d < ?m")
    case True
    let ?d = "d\<lparr>count := count d + 1\<rparr>"
    let ?s = "s\<lparr>rateLimiter := (rateLimiter s)(rate_key u a \<mapsto> ?d)\<rparr>"
    have step: "checkRateLimit s cfg t u a = (True, ?s)"
      using checkRateLimit_counted [OF Cons.prems(1) tw True] .
    obtain rs1 where r1: "checkRateLimit_seq ?s cfg u a ts = (rs1, s')" and rs: "rs = True # rs1"
      using Cons.prems(3) step by (auto split: prod.splits)
    have e: "rateLimiter ?s (rate_key u a) = Some ?d" by simp
    have rest': "\<forall>t\<in>set ts. t \<le> resetTime ?d" using rest by simp
    note ih = Cons.IH [OF e rest' r1]
    have n: "nat (?m - count d) = Suc (nat (?m - count ?d))" using True by simp
    show ?thesis using ih rs unfolding n by (simp add: min_def)
  next
    case False
    then have ge: "?m \<le> count d" by simp
    have step: "checkRateLimit s cfg t u a = (False, s)"
      using checkRateLimit_rejected [OF Cons.prems(1) tw ge] .
    obtain rs1 where r1: "checkRateLimit_seq s cfg u a ts = (rs1, s')" and rs: "rs = False # rs1"
      using Cons.prems(3) step by (auto split: prod.splits)
    note ih = Cons.IH [OF Cons.prems(1) rest r1]
    have n: "nat (?m - count d) = 0" using ge by simp
    show ?thesis using ih rs unfolding n by (simp add: replicate_app_Cons_same)
  qed
qed


text \<open>
  C3, as the code has it. A request that finds no entry for its key, or an entry whose
  window has expired (\<open>now > resetTime\<close>), is allowed and starts a window: count 1,
  \<open>resetTime = now + window\<close>. The requests that follow within that window are allowed
  and counted until the count has reached \<open>messages\<close>, and rejected from then on with the
  counter left as it is; the request that opens the window is allowed whatever \<open>messages\<close>
  is, so the number allowed in one window is \<open>max 1 messages\<close>. Of \<open>n\<close> requests in one
  window the first \<open>max 1 messages\<close> are allowed and each further one is rejected, which
  for \<open>messages \<ge> 1\<close> is one rejection for each action in excess of \<open>messages\<close>. The
  first request after \<open>resetTime\<close> is allowed and starts a fresh window.
\<close>

theorem checkRateLimit_fixed_window:
  assumes fresh: "rateLimiter s (rate_key u a) = None
                  \<or> (\<exists>d. rateLimiter s (rate_key u a) = Some d \<and> resetTime d < t0)"
    and inw: "\<forall>t\<in>set ts. t \<le> t0 + window (rateLimit_config cfg)"
    and run: "checkRateLimit_seq s cfg u a (t0 # ts) = (rs, s')"
    and later: "t0 + window (rateLimit_config cfg) < t'"
  shows "rs = replicate (min (Suc (length ts)) (max 1 (nat (messages (rateLimit_config cfg))))) True
              @ replicate (Suc (length ts) - max 1 (nat (messages (rateLimit_config cfg)))) False
       \<and> rateLimiter s' (rate_key u a) =
           Some \<lparr>count = int (min (Suc (length ts)) (max 1 (nat (messages (rateLimit_config cfg))))),
                 resetTime = t0 + window (rateLimit_config cfg)\<rparr>
       \<and> checkRateLimit s' cfg t' u a =
           (True, s'\<lparr>rateLimiter := (rateLimiter s')(rate_key u a \<mapsto>
              \<lparr>count = 1, resetTime = t' + window (rateLimit_config cfg)\<rparr>)\<rparr>)"
proof -
  let ?m = "messages (rateLimit_config cfg)"
  let ?w = "window (rateLimit_config cfg)"
  let ?d = "\<lparr>count = 1, resetTime = t0 + ?w\<rparr>"
  let ?s = "s\<lparr>rateLimiter := (rateLimiter s)(rate_key u a \<mapsto> ?d)\<rparr>"
  have step: "checkRateLimit s cfg t0 u a = (True, ?s)"
    using fresh checkRateLimit_first checkRateLimit_expired by blast
  obtain rs1 where r1: "checkRateLimit_seq ?s cfg u a ts = (rs1, s')" and rs: "rs = True # rs1"
    using run step by (auto split: prod.splits)
  have e: "rateLimiter ?s (rate_key u a) = Some ?d" by simp
  have inw': "\<forall>t\<in>set ts. t \<le> resetTime ?d" using inw by simp
  note sq = checkRateLimit_seq_in_window [OF e inw' r1]
  obtain j where K: "max 1 (nat ?m) = Suc j"
    by (cases "max 1 (nat ?m)") simp_all
  have k: "nat (?m - count ?d) = j" using K by simp
  have a1: "rs = replicate (min (Suc (length ts)) (max 1 (nat ?m))) True
              @ replicate (Suc (length ts) - max 1 (nat ?m)) False"
    using sq rs unfolding k K by simp
  have a2: "rateLimiter s' (rate_key u a) =
           Some \<lparr>count = int (min (Suc (length ts)) (max 1 (nat ?m))), resetTime = t0 + ?w\<rparr>"
    using sq unfolding k K by simp
  have a3: "checkRateLimit s' cfg t' u a =
           (True, s'\<lparr>rateLimiter := (rateLimiter s')(rate_key u a \<mapsto>
              \<lparr>count = 1, resetTime = t' + ?w\<rparr>)\<rparr>)"
    using checkRateLimit_expired [OF a2, of t' cfg] later by simp
  show ?thesis using a1 a2 a3 by blast
qed

theorem checkRateLimit_fixed_window_witness:
  "(rateLimiter new_bridge (rate_key 42 (js ''message'')) = None
      \<or> (\<exists>d. rateLimiter new_bridge (rate_key 42 (js ''message'')) = Some d \<and> resetTime d < 0))
   \<and> (10::int) \<le> 0 + window (rateLimit_config (Some \<lparr>messages = 2, window = 100\<rparr>))
   \<and> (100::int) \<le> 0 + window (rateLimit_config (Some \<lparr>messages = 2, window = 100\<rparr>))
   \<and> fst (checkRateLimit_seq new_bridge (Some \<lparr>messages = 2, window = 100\<rparr>) 42 (js ''message'')
            [0, 10, 100]) = [True, True, False]
   \<and> rateLimiter (snd (checkRateLimit_seq new_bridge (Some \<lparr>messages = 2, window = 100\<rparr>) 42
                         (js ''message'') [0, 10, 100])) (rate_key 42 (js ''message''))
       = Some \<lparr>count = 2, resetTime = 100\<rparr>
   \<and> fst (checkRateLimit (snd (checkRateLimit_seq new_bridge (Some \<lparr>messages = 2, window = 100\<rparr>)
                                 42 (js ''message'') [0, 10, 100]))
            (Some \<lparr>messages = 2, window = 100\<rparr>) 101 42 (js ''message''))"
proof -
  have h1: "rateLimiter new_bridge (rate_key 42 (js ''message'')) = None
      \<or> (\<exists>d. rateLimiter new_bridge (rate_key 42 (js ''message'')) = Some d \<and> resetTime d < 0)"
    by (simp add: new_bridge_def)
  have h2: "\<forall>t\<in>set [10, 100]. t \<le> (0::int) + window (rateLimit_config (Some \<lparr>messages = 2, window = 100\<rparr>))"
    by (simp add: rateLimit_config_def)
  have h3: "checkRateLimit_seq new_bridge (Some \<lparr>messages = 2, window = 100\<rparr>) 42 (js ''message'')
              [0, 10, 100]
            = (fst (checkRateLimit_seq new_bridge (Some \<lparr>messages = 2, window = 100\<rparr>) 42
                      (js ''message'') [0, 10, 100]),
               snd (checkRateLimit_seq new_bridge (Some \<lparr>messages = 2, window = 100\<rparr>) 42
                      (js ''message'') [0, 10, 100]))"
    by simp
  have h4: "(0::int) + window (rateLimit_config (Some \<lparr>messages = 2, window = 100\<rparr>)) < 101"
    by (simp add: rateLimit_config_def)
  show ?thesis
    using h1 h2 checkRateLimit_fixed_window [OF h1 h2 h3 h4]
    by (simp add: rateLimit_config_def numeral_3_eq_3)
qed

text \<open>
  With \<open>messages = 0\<close> two actions in one window are both in excess, and only the second
  is rejected.
\<close>

theorem checkRateLimit_zero_limit_counterexample:
  "fst (checkRateLimit_seq new_bridge (Some \<lparr>messages = 0, window = 60000\<rparr>) 42 (js ''message'')
          [1000, 1001]) = [True, False]"
  by (simp add: checkRateLimit_def rateLimit_config_def new_bridge_def rate_key_def js_def)


subsection \<open>Write-through of the mapping store\<close>

lemma chatMappings_load_mapping: "chatMappings (load_mapping s d) = chat_upd (chatMappings s) d"
  by (cases d) simp_all

lemma chatMappings_foldl_load:
  "chatMappings (foldl load_mapping s ds) = foldl chat_upd (chatMappings s) ds"
  by (induction ds arbitrary: s) (simp_all add: chatMappings_load_mapping)

lemma collection_foldl_load: "collection (foldl load_mapping s ds) = collection s"
proof (induction ds arbitrary: s)
  case Nil then show ?case by simp
next
  case (Cons d ds)
  have "collection (load_mapping s d) = collection s" by (cases d) simp_all
  then show ?case using Cons.IH by simp
qed

lemma chat_upd_add: "chat_upd m d = m ++ chat_upd Map.empty d"
  by (cases d) simp_all

lemma foldl_chat_upd_add: "foldl chat_upd m ds = m ++ foldl chat_upd Map.empty ds"
proof (induction ds arbitrary: m)
  case Nil then show ?case by simp
next
  case (Cons d ds)
  have "foldl chat_upd m (d # ds) = chat_upd m d ++ foldl chat_upd Map.empty ds"
    using Cons.IH [of "chat_upd m d"] by simp
  also have "\<dots> = (m ++ chat_upd Map.empty d) ++ foldl chat_upd Map.empty ds"
    using chat_upd_add [of m d] by simp
  also have "\<dots> = m ++ foldl chat_upd (chat_upd Map.empty d) ds"
    using Cons.IH [of "chat_upd Map.empty d"] by simp
  finally show ?case by simp
qed

lemma foldl_chat_upd_absent:
  "j \<notin> set (chat_keys ds) \<Longrightarrow> foldl chat_upd m ds j = m j"
proof (induction ds arbitrary: m)
  case Nil then show ?case by simp
next
  case (Cons d ds)
  then show ?case by (cases d) simp_all
qed

lemma chat_keys_updateOne:
  "set (chat_keys (updateOne (ChatFilter j) (ChatDoc j t) ds)) = insert j (set (chat_keys ds))"
proof (induction ds)
  case Nil then show ?case by simp
next
  case (Cons d ds)
  then show ?case by (cases d) auto
qed

lemma distinct_chat_keys_updateOne:
  "distinct (chat_keys ds) \<Longrightarrow> distinct (chat_keys (updateOne (ChatFilter j) (ChatDoc j t) ds))"
proof (induction ds)
  case Nil then show ?case by simp
next
  case (Cons d ds)
  then show ?case by (cases d) (auto simp: chat_keys_updateOne)
qed

lemma foldl_chat_upd_updateOne:
  "distinct (chat_keys ds) \<Longrightarrow>
   foldl chat_upd m (updateOne (ChatFilter j) (ChatDoc j t) ds) = (foldl chat_upd m ds)(j \<mapsto> t)"
proof (induction ds arbitrary: m)
  case Nil then show ?case by simp
next
  case (Cons d ds)
  show ?case
  proof (cases "matches (ChatFilter j) d")
    case True
    then obtain t0 where d: "d = ChatDoc j t0" by (cases d) simp_all
    have nj: "j \<notin> set (chat_keys ds)" using Cons.prems d by simp
    have "foldl chat_upd (m(j \<mapsto> t)) ds = (foldl chat_upd (m(j \<mapsto> t0)) ds)(j \<mapsto> t)"
    proof
      fix x
      have E: "foldl chat_upd m' ds x =
                 (case foldl chat_upd Map.empty ds x of None \<Rightarrow> m' x | Some y \<Rightarrow> Some y)" for m'
        by (subst foldl_chat_upd_add) (simp add: map_add_def)
      show "foldl chat_upd (m(j \<mapsto> t)) ds x = ((foldl chat_upd (m(j \<mapsto> t0)) ds)(j \<mapsto> t)) x"
      proof (cases "x = j")
        case True
        then show ?thesis using foldl_chat_upd_absent [OF nj] by simp
      next
        case False
        then show ?thesis using E [of "m(j \<mapsto> t)"] E [of "m(j \<mapsto> t0)"]
          by (simp split: option.split)
      qed
    qed
    then show ?thesis using d by simp
  next
    case False
    have dk: "distinct (chat_keys ds)" using Cons.prems by (cases d) simp_all
    show ?thesis using False Cons.IH [OF dk, of "chat_upd m d"] by simp
  qed
qed

lemma load_clear_chat:
  "collection_assigned s \<Longrightarrow>
   chatMappings (loadMappingsFromDb (clear_caches s) True) = foldl chat_upd Map.empty (collection s)"
  by (simp add: loadMappingsFromDb_def clear_caches_def emit_def Let_def chatMappings_foldl_load)

lemma load_clear_chat_null:
  "\<not> collection_assigned s \<Longrightarrow>
   chatMappings (loadMappingsFromDb (clear_caches s) find_ok) = Map.empty"
  by (simp add: loadMappingsFromDb_def clear_caches_def emit_def)

lemma collection_load:
  "collection (loadMappingsFromDb s ok) = collection s"
  by (simp add: loadMappingsFromDb_def emit_def Let_def collection_foldl_load)

lemma saveChatMapping_null:
  "\<not> collection_assigned s \<Longrightarrow>
   saveChatMapping s j t ok = s\<lparr>trace := trace s @ [Log Error]\<rparr>"
  by (simp add: saveChatMapping_def emit_def)

lemma collection_assigned_saveChatMapping:
  "collection_assigned (saveChatMapping s j t ok) = collection_assigned s"
  by (simp add: saveChatMapping_def emit_def Let_def)

lemma collection_assigned_saveChatMapping_seq:
  "collection_assigned (saveChatMapping_seq s ops) = collection_assigned s"
proof (induction ops arbitrary: s)
  case Nil then show ?case by simp
next
  case (Cons x ops)
  obtain j t ok where x: "x = (j, t, ok)" by (cases x) auto
  show ?case using Cons.IH [of "saveChatMapping s j t ok"] x
    by (simp add: collection_assigned_saveChatMapping)
qed

lemma saveChatMapping_seq_null:
  "\<not> collection_assigned s \<Longrightarrow> chatMappings (saveChatMapping_seq s ops) = chatMappings s"
proof (induction ops arbitrary: s)
  case Nil then show ?case by simp
next
  case (Cons x ops)
  obtain j t ok where x: "x = (j, t, ok)" by (cases x) auto
  have n: "\<not> collection_assigned (saveChatMapping s j t ok)"
    using Cons.prems by (simp add: collection_assigned_saveChatMapping)
  show ?case using Cons.IH [OF n] Cons.prems x by (simp add: saveChatMapping_null)
qed

lemma saveChatMapping_inv:
  assumes "distinct (chat_keys (collection s))"
    and "chatMappings s = foldl chat_upd Map.empty (collection s)"
  shows "distinct (chat_keys (collection (saveChatMapping s j t ok)))
       \<and> chatMappings (saveChatMapping s j t ok)
           = foldl chat_upd Map.empty (collection (saveChatMapping s j t ok))"
proof (cases "collection_assigned s")
  case False
  then show ?thesis using assms by (simp add: saveChatMapping_null)
next
  case True
  then show ?thesis
    using assms
    by (cases ok)
       (simp_all add: saveChatMapping_def emit_def Let_def distinct_chat_keys_updateOne
          foldl_chat_upd_updateOne)
qed

lemma saveChatMapping_seq_inv:
  "distinct (chat_keys (collection s)) \<Longrightarrow>
   chatMappings s = foldl chat_upd Map.empty (collection s) \<Longrightarrow>
   distinct (chat_keys (collection (saveChatMapping_seq s ops)))
     \<and> chatMappings (saveChatMapping_seq s ops)
         = foldl chat_upd Map.empty (collection (saveChatMapping_seq s ops))"
proof (induction ops arbitrary: s)
  case Nil then show ?case by simp
next
  case (Cons x ops)
  obtain j t ok where x: "x = (j, t, ok)" by (cases x) auto
  show ?case using Cons.IH saveChatMapping_inv [OF Cons.prems, of j t ok] x by simp
qed

lemma in_set_updateOne: "d \<in> set (updateOne f d ds)"
  by (induction ds) auto

text \<open>The four save operations, case by case.\<close>

lemma saveChatMapping_written:
  "collection_assigned s \<Longrightarrow>
   saveChatMapping s whatsappJid telegramTopicId True =
     s\<lparr>chatMappings := (chatMappings s)(whatsappJid \<mapsto> telegramTopicId),
       topicVerificationCache := (topicVerificationCache s)(whatsappJid := None),
       collection := updateOne (ChatFilter whatsappJid) (ChatDoc whatsappJid telegramTopicId)
                       (collection s),
       trace := trace s @ [DbUpdateOne (ChatFilter whatsappJid)
                             (ChatDoc whatsappJid telegramTopicId), Log Debug]\<rparr>"
  by (simp add: saveChatMapping_def emit_def Let_def)

lemma saveChatMapping_rejected:
  "collection_assigned s \<Longrightarrow>
   saveChatMapping s whatsappJid telegramTopicId False =
     s\<lparr>trace := trace s @ [DbUpdateOne (ChatFilter whatsappJid)
                             (ChatDoc whatsappJid telegramTopicId), Log Error]\<rparr>"
  by (simp add: saveChatMapping_def emit_def Let_def)

lemma saveContactMapping_written:
  "collection_assigned s \<Longrightarrow>
   saveContactMapping s phone name True =
     s\<lparr>contactMappings := (contactMappings s)(phone \<mapsto> name),
       collection := updateOne (ContactFilter phone) (ContactDoc phone name) (collection s),
       trace := trace s @ [DbUpdateOne (ContactFilter phone) (ContactDoc phone name),
                           Log Debug]\<rparr>"
  by (simp add: saveContactMapping_def emit_def Let_def)

lemma saveContactMapping_rejected:
  "collection_assigned s \<Longrightarrow>
   saveContactMapping s phone name False =
     s\<lparr>trace := trace s @ [DbUpdateOne (ContactFilter phone) (ContactDoc phone name),
                           Log Error]\<rparr>"
  by (simp add: saveContactMapping_def emit_def Let_def)

lemma saveContactMapping_null:
  "\<not> collection_assigned s \<Longrightarrow>
   saveContactMapping s phone name write_ok = s\<lparr>trace := trace s @ [Log Error]\<rparr>"
  by (simp add: saveContactMapping_def emit_def)

lemma saveMessageMapping_written:
  "collection_assigned s \<Longrightarrow>
   saveMessageMapping s telegramMsgId whatsappKey True =
     s\<lparr>messageIdMapping :=
         (messageIdMapping s)(LocalId telegramMsgId \<mapsto> RemoteKey whatsappKey),
       collection := updateOne (MessageFilter telegramMsgId)
                       (MessageDoc telegramMsgId whatsappKey) (collection s),
       trace := trace s @ [DbUpdateOne (MessageFilter telegramMsgId)
                             (MessageDoc telegramMsgId whatsappKey)]\<rparr>"
  by (simp add: saveMessageMapping_def emit_def Let_def)

lemma saveMessageMapping_rejected:
  "collection_assigned s \<Longrightarrow>
   saveMessageMapping s telegramMsgId whatsappKey False =
     s\<lparr>trace := trace s @ [DbUpdateOne (MessageFilter telegramMsgId)
                             (MessageDoc telegramMsgId whatsappKey), Log Error]\<rparr>"
  by (simp add: saveMessageMapping_def emit_def Let_def)

lemma saveMessageMapping_null:
  "\<not> collection_assigned s \<Longrightarrow>
   saveMessageMapping s telegramMsgId whatsappKey write_ok = s\<lparr>trace := trace s @ [Log Error]\<rparr>"
  by (simp add: saveMessageMapping_def emit_def)

lemma saveUserMapping_written:
  "collection_assigned s \<Longrightarrow> user_objects s userData = Some data \<Longrightarrow>
   saveUserMapping s whatsappId userData True =
     s\<lparr>userMappings := (userMappings s)(whatsappId \<mapsto> userData),
       collection := updateOne (UserFilter whatsappId) (UserDoc whatsappId data) (collection s),
       trace := trace s @ [DbUpdateOne (UserFilter whatsappId) (UserDoc whatsappId data),
                           Log Debug]\<rparr>"
  by (simp add: saveUserMapping_def emit_def Let_def)

lemma saveUserMapping_rejected:
  "collection_assigned s \<Longrightarrow> user_objects s userData = Some data \<Longrightarrow>
   saveUserMapping s whatsappId userData False =
     s\<lparr>trace := trace s @ [DbUpdateOne (UserFilter whatsappId) (UserDoc whatsappId data),
                           Log Error]\<rparr>"
  by (simp add: saveUserMapping_def emit_def Let_def)

lemma saveUserMapping_null:
  "\<not> collection_assigned s \<Longrightarrow>
   saveUserMapping s whatsappId userData write_ok = s\<lparr>trace := trace s @ [Log Error]\<rparr>"
  by (simp add: saveUserMapping_def emit_def)

text \<open>
  \<open>createUserMapping\<close> for a participant in the cache: the object that the cache holds has
  the incremented count whatever becomes of the write, and the collection gets the new
  document only when the write succeeds.
\<close>

lemma createUserMapping_known:
  assumes "userMappings s participantJid = Some userData"
    and "user_objects s userData = Some data"
  shows "createUserMapping s participantJid now write_ok =
           (Returned (),
            saveUserMapping
              (s\<lparr>user_objects := (user_objects s)
                    (userData \<mapsto> data\<lparr>ud_messageCount := ud_messageCount data + 1\<rparr>)\<rparr>)
              participantJid userData write_ok)"
    and "cached_user (snd (createUserMapping s participantJid now write_ok)) participantJid
           = Some (data\<lparr>ud_messageCount := ud_messageCount data + 1\<rparr>)"
    and "collection_assigned s \<and> write_ok \<longrightarrow>
           UserDoc participantJid (data\<lparr>ud_messageCount := ud_messageCount data + 1\<rparr>)
             \<in> set (collection (snd (createUserMapping s participantJid now write_ok)))"
    and "\<not> (collection_assigned s \<and> write_ok) \<longrightarrow>
           collection (snd (createUserMapping s participantJid now write_ok)) = collection s"
  using assms
  by (simp_all add: createUserMapping_def saveUserMapping_def cached_user_def emit_def Let_def
        in_set_updateOne)

text \<open>
  \<open>createUserMapping\<close> for a participant not in the cache: the new object is in the cache
  only after a write that succeeded.
\<close>

lemma createUserMapping_new:
  assumes "userMappings s participantJid = None"
  shows "collection_assigned s \<and> write_ok \<longrightarrow>
           cached_user (snd (createUserMapping s participantJid now write_ok)) participantJid
             = Some \<lparr>ud_name = contactMappings s (split_first participantJid at_sign),
                     ud_phone = split_first participantJid at_sign,
                     ud_firstSeen = now, ud_messageCount = 1\<rparr>"
    and "\<not> (collection_assigned s \<and> write_ok) \<longrightarrow>
           cached_user (snd (createUserMapping s participantJid now write_ok)) participantJid = None
           \<and> collection (snd (createUserMapping s participantJid now write_ok)) = collection s"
  using assms
  by (simp_all add: createUserMapping_def saveUserMapping_def cached_user_def emit_def Let_def)

text \<open>
  C5, as the code has it. With \<open>this.collection\<close> assigned, the save operations for chat,
  contact and message mappings, and \<open>saveUserMapping\<close>, issue the durable write first. When
  the write succeeds the document is upserted and the cache entry is set afterwards; when
  it fails the failure is logged and the cache is left as it was, since the assignment to
  the cache is the statement after the awaited write inside the same \<open>try\<close>. While
  \<open>this.collection\<close> is \<open>null\<close> no write is issued: the error is logged and the cache is
  left as it was. User mappings are saved through \<open>createUserMapping\<close>. For a participant
  in the cache it increments the count on the cached object before \<open>saveUserMapping\<close>
  runs, so the cache holds the new count whatever becomes of the write, and the collection
  holds it only after a write that succeeded. For a participant not in the cache the new
  object is cached only after a write that succeeded.
\<close>

theorem save_write_then_cache:
  "(collection_assigned s \<longrightarrow>
      saveChatMapping s whatsappJid telegramTopicId True =
        s\<lparr>chatMappings := (chatMappings s)(whatsappJid \<mapsto> telegramTopicId),
          topicVerificationCache := (topicVerificationCache s)(whatsappJid := None),
          collection := updateOne (ChatFilter whatsappJid) (ChatDoc whatsappJid telegramTopicId)
                          (collection s),
          trace := trace s @ [DbUpdateOne (ChatFilter whatsappJid)
                                (ChatDoc whatsappJid telegramTopicId), Log Debug]\<rparr>
    \<and> saveChatMapping s whatsappJid telegramTopicId False =
        s\<lparr>trace := trace s @ [DbUpdateOne (ChatFilter whatsappJid)
                                (ChatDoc whatsappJid telegramTopicId), Log Error]\<rparr>
    \<and> saveContactMapping s phone name True =
        s\<lparr>contactMappings := (contactMappings s)(phone \<mapsto> name),
          collection := updateOne (ContactFilter phone) (ContactDoc phone name) (collection s),
          trace := trace s @ [DbUpdateOne (ContactFilter phone) (ContactDoc phone name),
                              Log Debug]\<rparr>
    \<and> saveContactMapping s phone name False =
        s\<lparr>trace := trace s @ [DbUpdateOne (ContactFilter phone) (ContactDoc phone name),
                              Log Error]\<rparr>
    \<and> saveMessageMapping s telegramMsgId whatsappKey True =
        s\<lparr>messageIdMapping :=
            (messageIdMapping s)(LocalId telegramMsgId \<mapsto> RemoteKey whatsappKey),
          collection := updateOne (MessageFilter telegramMsgId)
                          (MessageDoc telegramMsgId whatsappKey) (collection s),
          trace := trace s @ [DbUpdateOne (MessageFilter telegramMsgId)
                                (MessageDoc telegramMsgId whatsappKey)]\<rparr>
    \<and> saveMessageMapping s telegramMsgId whatsappKey False =
        s\<lparr>trace := trace s @ [DbUpdateOne (MessageFilter telegramMsgId)
                                (MessageDoc telegramMsgId whatsappKey), Log Error]\<rparr>
    \<and> (user_objects s userData = Some data \<longrightarrow>
         saveUserMapping s whatsappId userData True =
           s\<lparr>userMappings := (userMappings s)(whatsappId \<mapsto> userData),
             collection := updateOne (UserFilter whatsappId) (UserDoc whatsappId data)
                             (collection s),
             trace := trace s @ [DbUpdateOne (UserFilter whatsappId) (UserDoc whatsappId data),
                                 Log Debug]\<rparr>
       \<and> saveUserMapping s whatsappId userData False =
           s\<lparr>trace := trace s @ [DbUpdateOne (UserFilter whatsappId) (UserDoc whatsappId data),
                                 Log Error]\<rparr>))
   \<and> (\<not> collection_assigned s \<longrightarrow>
      saveChatMapping s whatsappJid telegramTopicId write_ok = s\<lparr>trace := trace s @ [Log Error]\<rparr>
    \<and> saveContactMapping s phone name write_ok = s\<lparr>trace := trace s @ [Log Error]\<rparr>
    \<and> saveMessageMapping s telegramMsgId whatsappKey write_ok
        = s\<lparr>trace := trace s @ [Log Error]\<rparr>
    \<and> saveUserMapping s whatsappId userData write_ok = s\<lparr>trace := trace s @ [Log Error]\<rparr>)
   \<and> (userMappings s participantJid = Some userData \<and> user_objects s userData = Some data \<longrightarrow>
      createUserMapping s participantJid now write_ok =
        (Returned (),
         saveUserMapping
           (s\<lparr>user_objects := (user_objects s)
                 (userData \<mapsto> data\<lparr>ud_messageCount := ud_messageCount data + 1\<rparr>)\<rparr>)
           participantJid userData write_ok)
    \<and> cached_user (snd (createUserMapping s participantJid now write_ok)) participantJid
        = Some (data\<lparr>ud_messageCount := ud_messageCount data + 1\<rparr>)
    \<and> (collection_assigned s \<and> write_ok \<longrightarrow>
         UserDoc participantJid (data\<lparr>ud_messageCount := ud_messageCount data + 1\<rparr>)
           \<in> set (collection (snd (createUserMapping s participantJid now write_ok))))
    \<and> (\<not> (collection_assigned s \<and> write_ok) \<longrightarrow>
         collection (snd (createUserMapping s participantJid now write_ok)) = collection s))
   \<and> (userMappings s participantJid = None \<longrightarrow>
      (collection_assigned s \<and> write_ok \<longrightarrow>
         cached_user (snd (createUserMapping s participantJid now write_ok)) participantJid
           = Some \<lparr>ud_name = contactMappings s (split_first participantJid at_sign),
                   ud_phone = split_first participantJid at_sign,
                   ud_firstSeen = now, ud_messageCount = 1\<rparr>)
    \<and> (\<not> (collection_assigned s \<and> write_ok) \<longrightarrow>
         cached_user (snd (createUserMapping s participantJid now write_ok)) participantJid = None
         \<and> collection (snd (createUserMapping s participantJid now write_ok)) = collection s))"
proof -
  have written: "collection_assigned s \<longrightarrow>
      saveChatMapping s whatsappJid telegramTopicId True =
        s\<lparr>chatMappings := (chatMappings s)(whatsappJid \<mapsto> telegramTopicId),
          topicVerificationCache := (topicVerificationCache s)(whatsappJid := None),
          collection := updateOne (ChatFilter whatsappJid) (ChatDoc whatsappJid telegramTopicId)
                          (collection s),
          trace := trace s @ [DbUpdateOne (ChatFilter whatsappJid)
                                (ChatDoc whatsappJid telegramTopicId), Log Debug]\<rparr>
    \<and> saveChatMapping s whatsappJid telegramTopicId False =
        s\<lparr>trace := trace s @ [DbUpdateOne (ChatFilter whatsappJid)
                                (ChatDoc whatsappJid telegramTopicId), Log Error]\<rparr>
    \<and> saveContactMapping s phone name True =
        s\<lparr>contactMappings := (contactMappings s)(phone \<mapsto> name),
          collection := updateOne (ContactFilter phone) (ContactDoc phone name) (collection s),
          trace := trace s @ [DbUpdateOne (ContactFilter phone) (ContactDoc phone name),
                              Log Debug]\<rparr>
    \<and> saveContactMapping s phone name False =
        s\<lparr>trace := trace s @ [DbUpdateOne (ContactFilter phone) (ContactDoc phone name),
                              Log Error]\<rparr>
    \<and> saveMessageMapping s telegramMsgId whatsappKey True =
        s\<lparr>messageIdMapping :=
            (messageIdMapping s)(LocalId telegramMsgId \<mapsto> RemoteKey whatsappKey),
          collection := updateOne (MessageFilter telegramMsgId)
                          (MessageDoc telegramMsgId whatsappKey) (collection s),
          trace := trace s @ [DbUpdateOne (MessageFilter telegramMsgId)
                                (MessageDoc telegramMsgId whatsappKey)]\<rparr>
    \<and> saveMessageMapping s telegramMsgId whatsappKey False =
        s\<lparr>trace := trace s @ [DbUpdateOne (MessageFilter telegramMsgId)
                                (MessageDoc telegramMsgId whatsappKey), Log Error]\<rparr>
    \<and> (user_objects s userData = Some data \<longrightarrow>
         saveUserMapping s whatsappId userData True =
           s\<lparr>userMappings := (userMappings s)(whatsappId \<mapsto> userData),
             collection := updateOne (UserFilter whatsappId) (UserDoc whatsappId data)
                             (collection s),
             trace := trace s @ [DbUpdateOne (UserFilter whatsappId) (UserDoc whatsappId data),
                                 Log Debug]\<rparr>
       \<and> saveUserMapping s whatsappId userData False =
           s\<lparr>trace := trace s @ [DbUpdateOne (UserFilter whatsappId) (UserDoc whatsappId data),
                                 Log Error]\<rparr>)"
    using saveChatMapping_written [of s whatsappJid telegramTopicId]
      saveChatMapping_rejected [of s whatsappJid telegramTopicId]
      saveContactMapping_written [of s phone name] saveContactMapping_rejected [of s phone name]
      saveMessageMapping_written [of s telegramMsgId whatsappKey]
      saveMessageMapping_rejected [of s telegramMsgId whatsappKey]
      saveUserMapping_written [of s userData data whatsappId]
      saveUserMapping_rejected [of s userData data whatsappId]
    by blast
  have null: "\<not> collection_assigned s \<longrightarrow>
      saveChatMapping s whatsappJid telegramTopicId write_ok = s\<lparr>trace := trace s @ [Log Error]\<rparr>
    \<and> saveContactMapping s phone name write_ok = s\<lparr>trace := trace s @ [Log Error]\<rparr>
    \<and> saveMessageMapping s telegramMsgId whatsappKey write_ok
        = s\<lparr>trace := trace s @ [Log Error]\<rparr>
    \<and> saveUserMapping s whatsappId userData write_ok = s\<lparr>trace := trace s @ [Log Error]\<rparr>"
    using saveChatMapping_null [of s whatsappJid telegramTopicId write_ok]
      saveContactMapping_null [of s phone name write_ok]
      saveMessageMapping_null [of s telegramMsgId whatsappKey write_ok]
      saveUserMapping_null [of s whatsappId userData write_ok]
    by blast
  show ?thesis
    using written null
      createUserMapping_known [where s = s and participantJid = participantJid
        and userData = userData and data = data and now = now and write_ok = write_ok]
      createUserMapping_new [where s = s and participantJid = participantJid and now = now
        and write_ok = write_ok]
    by blast
qed

theorem save_write_then_cache_witness:
  "collection_assigned connected_bridge
   \<and> chatMappings (saveChatMapping connected_bridge (js ''1@s.whatsapp.net'') 7 True)
       (js ''1@s.whatsapp.net'') = Some 7
   \<and> saveChatMapping connected_bridge (js ''1@s.whatsapp.net'') 7 False
       = connected_bridge\<lparr>trace := [DbUpdateOne (ChatFilter (js ''1@s.whatsapp.net''))
                                       (ChatDoc (js ''1@s.whatsapp.net'') 7), Log Error]\<rparr>
   \<and> \<not> collection_assigned new_bridge
   \<and> saveChatMapping new_bridge (js ''1@s.whatsapp.net'') 7 True
       = new_bridge\<lparr>trace := [Log Error]\<rparr>
   \<and> userMappings known_user_bridge (js ''2@s.whatsapp.net'') = Some 0
   \<and> user_objects known_user_bridge 0
       = Some \<lparr>ud_name = None, ud_phone = js ''2'', ud_firstSeen = 0, ud_messageCount = 4\<rparr>
   \<and> cached_user (snd (createUserMapping known_user_bridge (js ''2@s.whatsapp.net'') 1000 False))
       (js ''2@s.whatsapp.net'')
       = Some \<lparr>ud_name = None, ud_phone = js ''2'', ud_firstSeen = 0, ud_messageCount = 5\<rparr>
   \<and> collection (snd (createUserMapping known_user_bridge (js ''2@s.whatsapp.net'') 1000 False))
       = []
   \<and> userMappings connected_bridge (js ''2@s.whatsapp.net'') = None
   \<and> cached_user (snd (createUserMapping connected_bridge (js ''2@s.whatsapp.net'') 1000 False))
       (js ''2@s.whatsapp.net'') = None
   \<and> cached_user (snd (createUserMapping connected_bridge (js ''2@s.whatsapp.net'') 1000 True))
       (js ''2@s.whatsapp.net'')
       = Some \<lparr>ud_name = None, ud_phone = js ''2'', ud_firstSeen = 1000, ud_messageCount = 1\<rparr>"
proof -
  let ?j = "js ''1@s.whatsapp.net''"
  let ?p = "js ''2@s.whatsapp.net''"
  let ?d = "\<lparr>ud_name = None, ud_phone = js ''2'', ud_firstSeen = 0, ud_messageCount = 4\<rparr>"
  have c: "collection_assigned connected_bridge" "trace connected_bridge = []"
    "userMappings connected_bridge ?p = None" "chatMappings connected_bridge ?j = None"
    by (simp_all add: connected_bridge_def new_bridge_def)
  have n: "\<not> collection_assigned new_bridge" "trace new_bridge = []"
    by (simp_all add: new_bridge_def)
  have k: "userMappings known_user_bridge ?p = Some 0" "user_objects known_user_bridge 0 = Some ?d"
    "collection known_user_bridge = []" "collection_assigned known_user_bridge"
    by (simp_all add: known_user_bridge_def connected_bridge_def new_bridge_def)
  have p: "split_first ?p at_sign = js ''2''"
    by (simp add: split_first_def at_sign_def js_def)
  have q: "contactMappings connected_bridge (js ''2'') = None"
    by (simp add: connected_bridge_def new_bridge_def)
  note t1 = save_write_then_cache [where s = connected_bridge and whatsappJid = ?j
      and telegramTopicId = 7 and participantJid = ?p and now = 1000 and write_ok = False]
  note t2 = save_write_then_cache [where s = connected_bridge and participantJid = ?p
      and now = 1000 and write_ok = True]
  note t3 = save_write_then_cache [where s = new_bridge and whatsappJid = ?j
      and telegramTopicId = 7 and write_ok = True]
  note t4 = save_write_then_cache [where s = known_user_bridge and participantJid = ?p
      and userData = 0 and data = ?d and now = 1000 and write_ok = False]
  have a1: "chatMappings (saveChatMapping connected_bridge ?j 7 True) ?j = Some 7"
    using t1 c by simp
  have a2: "saveChatMapping connected_bridge ?j 7 False
       = connected_bridge\<lparr>trace := [DbUpdateOne (ChatFilter ?j) (ChatDoc ?j 7), Log Error]\<rparr>"
    using t1 c by simp
  have a3: "saveChatMapping new_bridge ?j 7 True = new_bridge\<lparr>trace := [Log Error]\<rparr>"
    using t3 n by simp
  have "cached_user (snd (createUserMapping known_user_bridge ?p 1000 False)) ?p
          = Some (?d\<lparr>ud_messageCount := ud_messageCount ?d + 1\<rparr>)
        \<and> collection (snd (createUserMapping known_user_bridge ?p 1000 False))
          = collection known_user_bridge"
    using t4 k(1,2) by blast
  then have a4: "cached_user (snd (createUserMapping known_user_bridge ?p 1000 False)) ?p
       = Some \<lparr>ud_name = None, ud_phone = js ''2'', ud_firstSeen = 0, ud_messageCount = 5\<rparr>
     \<and> collection (snd (createUserMapping known_user_bridge ?p 1000 False)) = []"
    using k(3) by simp
  have a5: "cached_user (snd (createUserMapping connected_bridge ?p 1000 False)) ?p = None"
    using t1 c by simp
  have a6: "cached_user (snd (createUserMapping connected_bridge ?p 1000 True)) ?p
       = Some \<lparr>ud_name = None, ud_phone = js ''2'', ud_firstSeen = 1000, ud_messageCount = 1\<rparr>"
    using t2 c p q by simp
  show ?thesis using c n k a1 a2 a3 a4 a5 a6 by simp
qed

text \<open>
  A chat mapping whose durable write is issued and fails is not in the cache afterwards.
\<close>

theorem save_failure_counterexample:
  "chatMappings (saveChatMapping connected_bridge (js ''1@s.whatsapp.net'') 7 False)
     (js ''1@s.whatsapp.net'') = None
   \<and> trace (saveChatMapping connected_bridge (js ''1@s.whatsapp.net'') 7 False)
     = [DbUpdateOne (ChatFilter (js ''1@s.whatsapp.net'')) (ChatDoc (js ''1@s.whatsapp.net'') 7),
        Log Error]"
  by (simp add: saveChatMapping_def emit_def connected_bridge_def new_bridge_def Let_def)

text \<open>
  C6. From a state whose chat cache is what loading would give, with the collection
  holding at most one chat document for each \<open>whatsappJid\<close>, any series of
  \<open>saveChatMapping\<close> calls leaves a state from which emptying the caches and loading gives
  back the same \<open>chatMappings\<close>; and a chat mapping whose write succeeded, which takes
  \<open>this.collection\<close> assigned, is what loading gives for its \<open>whatsappJid\<close>.
\<close>

theorem saveChatMapping_load_roundtrip:
  assumes "distinct (chat_keys (collection s))"
    and "chatMappings (loadMappingsFromDb (clear_caches s) True) = chatMappings s"
  shows "chatMappings (loadMappingsFromDb (clear_caches (saveChatMapping_seq s ops)) True)
           = chatMappings (saveChatMapping_seq s ops)
       \<and> (collection_assigned s \<longrightarrow>
            chatMappings (loadMappingsFromDb
              (clear_caches (saveChatMapping s whatsappJid telegramTopicId True)) True) whatsappJid
            = Some telegramTopicId)"
proof -
  have a: "chatMappings (loadMappingsFromDb (clear_caches (saveChatMapping_seq s ops)) True)
           = chatMappings (saveChatMapping_seq s ops)"
  proof (cases "collection_assigned s")
    case True
    then show ?thesis
      using saveChatMapping_seq_inv [OF assms(1), of ops] assms(2)
        collection_assigned_saveChatMapping_seq [of s ops]
      by (simp add: load_clear_chat)
  next
    case False
    then show ?thesis
      using assms(2) collection_assigned_saveChatMapping_seq [of s ops]
      by (simp add: load_clear_chat_null saveChatMapping_seq_null)
  qed
  have b: "collection_assigned s \<longrightarrow>
           chatMappings (loadMappingsFromDb
             (clear_caches (saveChatMapping s whatsappJid telegramTopicId True)) True) whatsappJid
           = Some telegramTopicId"
    using foldl_chat_upd_updateOne [OF assms(1)]
    by (simp add: load_clear_chat collection_assigned_saveChatMapping saveChatMapping_written)
  show ?thesis using a b by blast
qed

theorem saveChatMapping_load_roundtrip_witness:
  "distinct (chat_keys (collection connected_bridge))
   \<and> chatMappings (loadMappingsFromDb (clear_caches connected_bridge) True)
       = chatMappings connected_bridge
   \<and> collection_assigned connected_bridge
   \<and> chatMappings (loadMappingsFromDb (clear_caches (saveChatMapping_seq connected_bridge
         [(js ''1@s.whatsapp.net'', 5, True), (js ''2@g.us'', 6, False),
          (js ''1@s.whatsapp.net'', 7, True)])) True)
       = chatMappings (saveChatMapping_seq connected_bridge
         [(js ''1@s.whatsapp.net'', 5, True), (js ''2@g.us'', 6, False),
          (js ''1@s.whatsapp.net'', 7, True)])
   \<and> chatMappings (saveChatMapping_seq connected_bridge
         [(js ''1@s.whatsapp.net'', 5, True), (js ''2@g.us'', 6, False),
          (js ''1@s.whatsapp.net'', 7, True)]) (js ''1@s.whatsapp.net'') = Some 7
   \<and> chatMappings (loadMappingsFromDb
         (clear_caches (saveChatMapping connected_bridge (js ''1@s.whatsapp.net'') 5 True)) True)
         (js ''1@s.whatsapp.net'') = Some 5"
proof -
  have h1: "distinct (chat_keys (collection connected_bridge))"
    by (simp add: connected_bridge_def new_bridge_def)
  have h2: "chatMappings (loadMappingsFromDb (clear_caches connected_bridge) True)
              = chatMappings connected_bridge"
    by (simp add: connected_bridge_def new_bridge_def loadMappingsFromDb_def clear_caches_def
          emit_def Let_def)
  have h3: "collection_assigned connected_bridge"
    by (simp add: connected_bridge_def)
  have v: "chatMappings (saveChatMapping_seq connected_bridge
         [(js ''1@s.whatsapp.net'', 5, True), (js ''2@g.us'', 6, False),
          (js ''1@s.whatsapp.net'', 7, True)]) (js ''1@s.whatsapp.net'') = Some 7"
    by (simp add: saveChatMapping_def emit_def connected_bridge_def new_bridge_def Let_def js_def)
  show ?thesis
    using h1 h2 h3 v saveChatMapping_load_roundtrip [OF h1 h2] by blast
qed

lemma messageIdMapping_load_mapping_remote:
  "messageIdMapping (foldl load_mapping s ds) (RemoteKey k) = messageIdMapping s (RemoteKey k)"
proof (induction ds arbitrary: s)
  case Nil
  then show ?case by simp
next
  case (Cons d ds)
  have "messageIdMapping (load_mapping s d) (RemoteKey k) = messageIdMapping s (RemoteKey k)"
    by (cases d) simp_all
  then show ?case using Cons.IH [of "load_mapping s d"] by simp
qed

text \<open>
  Neither recording nor loading ever stores an entry under a WhatsApp key.
\<close>

lemma messageIdMapping_remote_unchanged:
  "messageIdMapping (saveMessageMapping s telegramMsgId whatsappKey write_ok) (RemoteKey k)
     = messageIdMapping s (RemoteKey k)
   \<and> messageIdMapping (loadMappingsFromDb s find_ok) (RemoteKey k)
     = messageIdMapping s (RemoteKey k)"
  by (simp add: saveMessageMapping_def loadMappingsFromDb_def emit_def Let_def
        messageIdMapping_load_mapping_remote)

text \<open>
  C7, as the code has it. \<open>saveMessageMapping\<close> whose write succeeds records the pair
  under the Telegram message identifier only: looking that identifier up gives the
  WhatsApp key, and what a look-up of any WhatsApp key gives is not changed, whatever
  becomes of the write.
\<close>

theorem saveMessageMapping_one_direction:
  "(collection_assigned s \<longrightarrow>
      messageIdMapping (saveMessageMapping s telegramMsgId whatsappKey True)
        (LocalId telegramMsgId) = Some (RemoteKey whatsappKey))
   \<and> messageIdMapping (saveMessageMapping s telegramMsgId whatsappKey write_ok) (RemoteKey k)
     = messageIdMapping s (RemoteKey k)"
  by (simp add: saveMessageMapping_def emit_def Let_def)

theorem saveMessageMapping_one_direction_witness:
  "collection_assigned connected_bridge
   \<and> messageIdMapping
       (saveMessageMapping connected_bridge 7
          (WaKey (js ''1@s.whatsapp.net'') (js ''3EB0'') False None) True) (LocalId 7)
     = Some (RemoteKey (WaKey (js ''1@s.whatsapp.net'') (js ''3EB0'') False None))"
proof -
  have h: "collection_assigned connected_bridge"
    by (simp add: connected_bridge_def)
  show ?thesis
    using h saveMessageMapping_one_direction [where s = connected_bridge and telegramMsgId = 7
        and whatsappKey = "WaKey (js ''1@s.whatsapp.net'') (js ''3EB0'') False None"]
    by simp
qed

text \<open>
  After a relayed message has been recorded, the look-up of its WhatsApp key finds nothing.
\<close>

theorem saveMessageMapping_reverse_counterexample:
  "messageIdMapping
     (saveMessageMapping connected_bridge 7
        (WaKey (js ''1@s.whatsapp.net'') (js ''3EB0'') False None) True)
     (RemoteKey (WaKey (js ''1@s.whatsapp.net'') (js ''3EB0'') False None)) = None
   \<and> messageIdMapping
     (saveMessageMapping connected_bridge 7
        (WaKey (js ''1@s.whatsapp.net'') (js ''3EB0'') False None) True) (LocalId 7)
     = Some (RemoteKey (WaKey (js ''1@s.whatsapp.net'') (js ''3EB0'') False None))"
  by (simp add: saveMessageMapping_def emit_def connected_bridge_def new_bridge_def Let_def)

subsection \<open>Authorization in the Telegram handlers\<close>

lemma isAuthorized_pollingRetries [simp]:
  "isAuthorized (s\<lparr>pollingRetries := n\<rparr>) u = isAuthorized s u"
  by (simp add: isAuthorized_def)

lemma rateLimiter_checkRateLimit_pollingRetries:
  "rateLimiter (snd (checkRateLimit (s\<lparr>pollingRetries := n\<rparr>) cfg now u a))
     = rateLimiter (snd (checkRateLimit s cfg now u a))"
  by (simp add: checkRateLimit_def Let_def split: option.splits)

lemma rateLimiter_handleCommand:
  "rateLimiter (fst (handleCommand s msg ok)) = rateLimiter s"
  by (simp add: handleCommand_def emit_def)

lemma message_handler_unauthorized:
  "\<not> isAuthorized s (msg_from_id msg) \<Longrightarrow>
   message_handler s cfg now msg send_ok = s\<lparr>pollingRetries := 0, trace := trace s @ [Log Warn]\<rparr>"
  by (simp add: message_handler_def emit_def Let_def)

lemma message_handler_authorized:
  "isAuthorized s (msg_from_id msg) \<Longrightarrow>
   rateLimiter (message_handler s cfg now msg send_ok)
     = rateLimiter (snd (checkRateLimit s cfg now (msg_from_id msg) (js ''message'')))"
proof -
  assume a: "isAuthorized s (msg_from_id msg)"
  obtain allowed s1 where c:
    "checkRateLimit (s\<lparr>pollingRetries := 0\<rparr>) cfg now (msg_from_id msg) (js ''message'') = (allowed, s1)"
    by (cases "checkRateLimit (s\<lparr>pollingRetries := 0\<rparr>) cfg now (msg_from_id msg) (js ''message'')") auto
  have r: "rateLimiter s1 = rateLimiter (snd (checkRateLimit s cfg now (msg_from_id msg) (js ''message'')))"
    using rateLimiter_checkRateLimit_pollingRetries
            [where s = s and n = 0 and cfg = cfg and now = now and u = "msg_from_id msg"
               and a = "js ''message''"] c
    by simp
  obtain s2 returned where h: "handleCommand (s1\<lparr>botChatId := Some (msg_chat_id msg)\<rparr>) msg send_ok = (s2, returned)"
    by (cases "handleCommand (s1\<lparr>botChatId := Some (msg_chat_id msg)\<rparr>) msg send_ok") auto
  have r2: "rateLimiter s2 = rateLimiter s1"
    using rateLimiter_handleCommand [of "s1\<lparr>botChatId := Some (msg_chat_id msg)\<rparr>" msg send_ok] h by simp
  show ?thesis
    using a c h r r2
    by (simp add: message_handler_def Let_def wrapHandler_catch_def emit_def)
qed

lemma callback_query_handler_unauthorized:
  "\<not> isAuthorized s (query_from_id query) \<Longrightarrow>
   callback_query_handler s query answer_ok =
     s\<lparr>trace := trace s @ TgAnswerCallbackQuery (query_id query) unauthorized_alert True
                           # (if answer_ok then [] else [Log Error])\<rparr>"
  by (simp add: callback_query_handler_def wrapHandler_catch_def emit_def)

lemma message_reaction_handler_unauthorized:
  "\<not> isAuthorized s (reaction_user_id reaction) \<Longrightarrow> message_reaction_handler s reaction = s"
  by (simp add: message_reaction_handler_def)

lemma handleCommand_unauthorized:
  "\<not> isAuthorized s (msg_from_id msg) \<Longrightarrow> truthy (msg_text msg) \<Longrightarrow>
   startsWith (the (msg_text msg)) (js ''/'') \<Longrightarrow>
   handleCommand s msg send_ok =
     (s\<lparr>trace := trace s @ [TgSendMessage (ChatId (msg_chat_id msg)) not_authorized_reply None]\<rparr>,
      send_ok)"
  by (simp add: handleCommand_def emit_def)

text \<open>
  C4, as the code has it. The \<open>message\<close> handler evaluates \<open>isAuthorized\<close> before
  \<open>checkRateLimit\<close>: an unauthorized message is dropped with one warning in the log, no
  call of the Telegram client and the rate limiter untouched, and for an authorized one the
  rate limiter is what \<open>checkRateLimit\<close> leaves. An unauthorized callback query is answered
  with the alert \<open>Unauthorized\<close> and not logged, an unauthorized reaction is dropped without
  a log entry, and \<open>handleCommand\<close> replies to an unauthorized command that the user is not
  authorized; none of the three touches the rate limiter.
\<close>

theorem unauthorized_requests:
  "(\<not> isAuthorized s (msg_from_id msg) \<longrightarrow>
      message_handler s cfg now msg send_ok
        = s\<lparr>pollingRetries := 0, trace := trace s @ [Log Warn]\<rparr>)
   \<and> (isAuthorized s (msg_from_id msg) \<longrightarrow>
      rateLimiter (message_handler s cfg now msg send_ok)
        = rateLimiter (snd (checkRateLimit s cfg now (msg_from_id msg) (js ''message''))))
   \<and> (\<not> isAuthorized s (query_from_id query) \<longrightarrow>
      callback_query_handler s query answer_ok
        = s\<lparr>trace := trace s @ TgAnswerCallbackQuery (query_id query) unauthorized_alert True
                                # (if answer_ok then [] else [Log Error])\<rparr>)
   \<and> (\<not> isAuthorized s (reaction_user_id reaction) \<longrightarrow>
      message_reaction_handler s reaction = s)
   \<and> (\<not> isAuthorized s (msg_from_id msg) \<and> truthy (msg_text msg)
        \<and> startsWith (the (msg_text msg)) (js ''/'') \<longrightarrow>
      handleCommand s msg send_ok
        = (s\<lparr>trace := trace s @ [TgSendMessage (ChatId (msg_chat_id msg))
                                    not_authorized_reply None]\<rparr>, send_ok))"
  using message_handler_unauthorized message_handler_authorized
    callback_query_handler_unauthorized message_reaction_handler_unauthorized
    handleCommand_unauthorized
  by blast

theorem unauthorized_requests_witness:
  "\<not> isAuthorized new_bridge 5
   \<and> message_handler new_bridge None 1000 start_command True
       = new_bridge\<lparr>pollingRetries := 0, trace := [Log Warn]\<rparr>
   \<and> isAuthorized (new_bridge\<lparr>authorizedUsers := {5}\<rparr>) 5
   \<and> rateLimiter (message_handler (new_bridge\<lparr>authorizedUsers := {5}\<rparr>) None 1000
                    start_command True) (rate_key 5 (js ''message''))
       = Some \<lparr>count = 1, resetTime = 61000\<rparr>
   \<and> callback_query_handler new_bridge button_query True
       = new_bridge\<lparr>trace := [TgAnswerCallbackQuery (js ''q1'') unauthorized_alert True]\<rparr>
   \<and> message_reaction_handler new_bridge \<lparr>reaction_user_id = 5\<rparr> = new_bridge
   \<and> handleCommand new_bridge start_command True
       = (new_bridge\<lparr>trace := [TgSendMessage (ChatId 5) not_authorized_reply None]\<rparr>, True)"
proof -
  have h1: "\<not> isAuthorized new_bridge 5"
    by (simp add: isAuthorized_def new_bridge_def)
  have h2: "isAuthorized (new_bridge\<lparr>authorizedUsers := {5}\<rparr>) 5"
    by (simp add: isAuthorized_def new_bridge_def)
  have h3: "truthy (msg_text start_command)
            \<and> startsWith (the (msg_text start_command)) (js ''/'')"
    by (simp add: start_command_def startsWith_def js_def)
  have f: "msg_from_id start_command = 5 \<and> msg_chat_id start_command = 5
           \<and> query_from_id button_query = 5 \<and> query_id button_query = js ''q1''"
    by (simp add: start_command_def button_query_def)
  have e: "trace new_bridge = []"
    by (simp add: new_bridge_def)
  have r: "rateLimiter (snd (checkRateLimit (new_bridge\<lparr>authorizedUsers := {5}\<rparr>) None 1000 5
                               (js ''message''))) (rate_key 5 (js ''message''))
           = Some \<lparr>count = 1, resetTime = 61000\<rparr>"
    by (simp add: checkRateLimit_def rateLimit_config_def new_bridge_def Let_def)
  note t1 = unauthorized_requests [where s = new_bridge and msg = start_command and cfg = None
      and now = 1000 and send_ok = True and query = button_query and answer_ok = True
      and reaction = "\<lparr>reaction_user_id = 5\<rparr>"]
  note t2 = unauthorized_requests [where s = "new_bridge\<lparr>authorizedUsers := {5}\<rparr>"
      and msg = start_command and cfg = None and now = 1000 and send_ok = True]
  show ?thesis using h1 h2 h3 f r t1 t2 by (simp add: e)
qed

text \<open>
  An unauthorized callback query gets a reply that its sender sees, and no log entry.
\<close>

theorem unauthorized_callback_counterexample:
  "\<not> isAuthorized new_bridge (query_from_id button_query)
   \<and> trace (callback_query_handler new_bridge button_query True)
       = [TgAnswerCallbackQuery (js ''q1'') unauthorized_alert True]"
  by (simp add: callback_query_handler_def wrapHandler_catch_def emit_def isAuthorized_def
        new_bridge_def button_query_def)

subsection \<open>The single consumer of the message queue\<close>

lemma queue_inv_new: "queue_inv (new_relay_queue\<lparr>telegramBot := ready\<rparr>)"
  by (simp add: queue_inv_def new_relay_queue_def)

lemma queue_inv_step: "queue_inv q \<Longrightarrow> queue_inv (queue_step q ev)"
proof (cases ev)
  case (Push t)
  assume "queue_inv q"
  then show ?thesis using Push by (simp add: queue_inv_def)
next
  case Tick
  assume "queue_inv q"
  then show ?thesis using Tick by (auto simp: queue_inv_def)
next
  case (Settle i)
  assume "queue_inv q"
  then show ?thesis using Settle by (auto simp: queue_inv_def)
next
  case (Call callerId callId)
  assume "queue_inv q"
  then show ?thesis using Call by (simp add: queue_inv_def Let_def)
next
  case (CallSettle i)
  assume "queue_inv q"
  then show ?thesis using CallSettle by (simp add: queue_inv_def)
next
  case (CallTimeout callKey)
  assume "queue_inv q"
  then show ?thesis using CallTimeout by (simp add: queue_inv_def)
qed

lemma pushed_append: "pushed (xs @ ys) = pushed xs @ pushed ys"
  by (induction xs rule: pushed.induct) simp_all

lemma queue_order_step:
  "begun (queue_step q ev) @ messageQueue (queue_step q ev)
     = (begun q @ messageQueue q) @ pushed [ev]"
  by (cases ev) (auto simp: neq_Nil_conv Let_def)

lemma queue_run:
  "queue_inv (foldl queue_step (new_relay_queue\<lparr>telegramBot := ready\<rparr>) evs)
   \<and> begun (foldl queue_step (new_relay_queue\<lparr>telegramBot := ready\<rparr>) evs)
       @ messageQueue (foldl queue_step (new_relay_queue\<lparr>telegramBot := ready\<rparr>) evs)
       = pushed evs"
proof (induction evs rule: rev_induct)
  case Nil
  then show ?case by (simp add: queue_inv_new) (simp add: new_relay_queue_def)
next
  case (snoc ev evs)
  then show ?case
    using queue_inv_step [of "foldl queue_step (new_relay_queue\<lparr>telegramBot := ready\<rparr>) evs" ev]
      queue_order_step [of "foldl queue_step (new_relay_queue\<lparr>telegramBot := ready\<rparr>) evs" ev]
    by (simp add: pushed_append)
qed

text \<open>
  Once the task that executes, if there is one, has settled, the consumer is idle and
  nothing else has changed.
\<close>

lemma settle_idle:
  assumes "queue_inv q"
  shows "queue_inv (queue_step q (Settle 0)) \<and> \<not> isProcessingQueue (queue_step q (Settle 0))
       \<and> begun (queue_step q (Settle 0)) = begun q
       \<and> messageQueue (queue_step q (Settle 0)) = messageQueue q"
proof (cases "executing q")
  case Nil
  then show ?thesis using assms by (simp add: queue_inv_def)
next
  case (Cons x xs)
  then have "xs = []" using assms by (simp add: queue_inv_def)
  then show ?thesis using Cons by (simp add: queue_inv_def)
qed

text \<open>
  An idle consumer whose timer keeps firing and whose tasks settle takes the queued tasks
  one after the other, from the oldest on, until the queue is empty.
\<close>

lemma drain_run:
  "queue_inv q \<Longrightarrow> \<not> isProcessingQueue q \<Longrightarrow> n = length (messageQueue q) \<Longrightarrow>
   begun (foldl queue_step q (drain n)) = begun q @ messageQueue q
   \<and> messageQueue (foldl queue_step q (drain n)) = []
   \<and> executing (foldl queue_step q (drain n)) = []"
proof (induction n arbitrary: q)
  case 0
  then show ?case by (simp add: queue_inv_def)
next
  case (Suc n)
  obtain t ts where m: "messageQueue q = t # ts"
    using Suc.prems(3) by (cases "messageQueue q") auto
  have e: "executing q = []"
    using Suc.prems(1,2) by (simp add: queue_inv_def)
  let ?q2 = "queue_step (queue_step q Tick) (Settle 0)"
  have q2: "?q2 = q\<lparr>isProcessingQueue := False, messageQueue := ts, executing := [],
                     begun := begun q @ [t]\<rparr>"
    using Suc.prems(2) m e by simp
  have i2: "queue_inv ?q2" "\<not> isProcessingQueue ?q2" "n = length (messageQueue ?q2)"
    using Suc.prems(3) m unfolding q2 by (simp_all add: queue_inv_def)
  have "foldl queue_step q (drain (Suc n)) = foldl queue_step ?q2 (drain n)"
    by simp
  then show ?case
    using Suc.IH [OF i2] m by (simp add: q2)
qed

text \<open>
  C9, as the code has it. Whatever series of pushes, timer ticks, settled tasks and call
  events the class of src/telegram/bridge.js goes through, at most one queued task executes
  at any time, and the tasks begun so far followed by those still queued are the tasks
  pushed, in the order they were pushed: queued tasks begin in the order in which they
  were enqueued. When the task that executes has settled and the timer fires and the
  started task settles as many times as there are tasks queued, every task pushed has
  begun, in push order, and the queue is empty. \<open>syncMessage\<close> and the Telegram \<open>message\<close>
  handler do nothing but push their task at the end of the queue. A call event does not
  pass through the queue: \<open>handleCallNotification\<close> leaves the queue and the executing task
  as they are and, with \<open>telegramBot\<close> set and the call not yet notified, begins its own
  relay at once.
\<close>

theorem queue_serial_fifo:
  "length (executing (foldl queue_step (new_relay_queue\<lparr>telegramBot := ready\<rparr>) evs)) \<le> 1
   \<and> begun (foldl queue_step (new_relay_queue\<lparr>telegramBot := ready\<rparr>) evs)
       @ messageQueue (foldl queue_step (new_relay_queue\<lparr>telegramBot := ready\<rparr>) evs)
       = pushed evs
   \<and> begun (foldl queue_step (foldl queue_step (new_relay_queue\<lparr>telegramBot := ready\<rparr>) evs)
        (Settle 0 # drain (length (messageQueue
           (foldl queue_step (new_relay_queue\<lparr>telegramBot := ready\<rparr>) evs)))))
       = pushed evs
   \<and> messageQueue (foldl queue_step (foldl queue_step (new_relay_queue\<lparr>telegramBot := ready\<rparr>) evs)
        (Settle 0 # drain (length (messageQueue
           (foldl queue_step (new_relay_queue\<lparr>telegramBot := ready\<rparr>) evs)))))
       = []
   \<and> executing (foldl queue_step (foldl queue_step (new_relay_queue\<lparr>telegramBot := ready\<rparr>) evs)
        (Settle 0 # drain (length (messageQueue
           (foldl queue_step (new_relay_queue\<lparr>telegramBot := ready\<rparr>) evs)))))
       = []
   \<and> t_syncMessage p enabled whatsappMsg msgText
       = (if telegramBot p \<and> enabled
            then queue_step p (Push (ProcessWhatsAppMessage whatsappMsg msgText)) else p)
   \<and> t_message_handler p msg
       = (if msg_chat_type msg = Supergroup \<and> msg_is_topic_message msg
            then queue_step p (Push (HandleTelegramMessage msg)) else p)
   \<and> messageQueue (queue_step p (Call callerId callId)) = messageQueue p
   \<and> executing (queue_step p (Call callerId callId)) = executing p
   \<and> begun (queue_step p (Call callerId callId)) = begun p
   \<and> isProcessingQueue (queue_step p (Call callerId callId)) = isProcessingQueue p
   \<and> (telegramBot p \<and> callerId @ js ''_'' @ callId \<notin> activeCallNotifications p \<longrightarrow>
        notifying (queue_step p (Call callerId callId))
          = notifying p @ [callerId @ js ''_'' @ callId])"
proof -
  let ?q = "foldl queue_step (new_relay_queue\<lparr>telegramBot := ready\<rparr>) evs"
  let ?q1 = "queue_step ?q (Settle 0)"
  have r: "queue_inv ?q" "begun ?q @ messageQueue ?q = pushed evs"
    using queue_run [of ready evs] by simp_all
  have i: "queue_inv ?q1" "\<not> isProcessingQueue ?q1" "begun ?q1 = begun ?q"
    "messageQueue ?q1 = messageQueue ?q"
    using settle_idle [OF r(1)] by simp_all
  have "length (messageQueue ?q) = length (messageQueue ?q1)"
    using i(4) by simp
  note d = drain_run [OF i(1) i(2) this]
  have f: "foldl queue_step ?q (Settle 0 # drain (length (messageQueue ?q)))
             = foldl queue_step ?q1 (drain (length (messageQueue ?q)))"
    by simp
  have progress: "begun (foldl queue_step ?q (Settle 0 # drain (length (messageQueue ?q))))
                    = pushed evs
      \<and> messageQueue (foldl queue_step ?q (Settle 0 # drain (length (messageQueue ?q)))) = []
      \<and> executing (foldl queue_step ?q (Settle 0 # drain (length (messageQueue ?q)))) = []"
    unfolding f using d i(3,4) r(2) by simp
  have safety: "length (executing ?q) \<le> 1"
    using r(1) by (simp add: queue_inv_def)
  have producers: "t_syncMessage p enabled whatsappMsg msgText
       = (if telegramBot p \<and> enabled
            then queue_step p (Push (ProcessWhatsAppMessage whatsappMsg msgText)) else p)"
    "t_message_handler p msg
       = (if msg_chat_type msg = Supergroup \<and> msg_is_topic_message msg
            then queue_step p (Push (HandleTelegramMessage msg)) else p)"
    by (simp_all add: t_syncMessage_def t_message_handler_def)
  have calls: "messageQueue (queue_step p (Call callerId callId)) = messageQueue p"
    "executing (queue_step p (Call callerId callId)) = executing p"
    "begun (queue_step p (Call callerId callId)) = begun p"
    "isProcessingQueue (queue_step p (Call callerId callId)) = isProcessingQueue p"
    "telegramBot p \<and> callerId @ js ''_'' @ callId \<notin> activeCallNotifications p \<longrightarrow>
        notifying (queue_step p (Call callerId callId))
          = notifying p @ [callerId @ js ''_'' @ callId]"
    by (simp_all add: Let_def)
  show ?thesis
    using safety r(2) progress producers calls by blast
qed

theorem queue_serial_fifo_witness:
  "telegramBot started_queue
   \<and> js ''49@s.whatsapp.net'' @ js ''_'' @ js ''c1'' \<notin> activeCallNotifications started_queue
   \<and> notifying (queue_step started_queue (Call (js ''49@s.whatsapp.net'') (js ''c1'')))
       = [js ''49@s.whatsapp.net'' @ js ''_'' @ js ''c1'']
   \<and> begun (foldl queue_step (new_relay_queue\<lparr>telegramBot := True\<rparr>)
        [Push (ProcessWhatsAppMessage hello_key (Some (js ''hello''))),
         Push (HandleTelegramMessage topic_message), Tick]
        :: relay_task relay_queue)
       = [ProcessWhatsAppMessage hello_key (Some (js ''hello''))]
   \<and> begun (foldl queue_step (foldl queue_step (new_relay_queue\<lparr>telegramBot := True\<rparr>)
        [Push (ProcessWhatsAppMessage hello_key (Some (js ''hello''))),
         Push (HandleTelegramMessage topic_message), Tick])
        [Settle 0, Tick, Settle 0])
       = [ProcessWhatsAppMessage hello_key (Some (js ''hello'')),
          HandleTelegramMessage topic_message]
   \<and> t_syncMessage started_queue True hello_key (Some (js ''hello''))
       = started_queue\<lparr>messageQueue := [ProcessWhatsAppMessage hello_key (Some (js ''hello''))]\<rparr>"
proof -
  let ?evs = "[Push (ProcessWhatsAppMessage hello_key (Some (js ''hello''))),
               Push (HandleTelegramMessage topic_message), Tick]"
  let ?q = "foldl queue_step (new_relay_queue\<lparr>telegramBot := True\<rparr>) ?evs :: relay_task relay_queue"
  have h: "telegramBot started_queue" "activeCallNotifications started_queue = {}"
    "notifying started_queue = []" "messageQueue started_queue = []"
    by (simp_all add: started_queue_def new_relay_queue_def)
  have m: "messageQueue ?q = [HandleTelegramMessage topic_message]"
    "begun ?q = [ProcessWhatsAppMessage hello_key (Some (js ''hello''))]"
    by (simp_all add: new_relay_queue_def)
  have d: "Settle 0 # drain (length (messageQueue ?q))
             = ([Settle 0, Tick, Settle 0] :: relay_task queue_event list)"
    unfolding m(1) by simp
  note t1 = queue_serial_fifo [where ready = True and evs = ?evs and p = started_queue
      and callerId = "js ''49@s.whatsapp.net''" and callId = "js ''c1''" and enabled = True
      and whatsappMsg = hello_key and msgText = "Some (js ''hello'')"]
  have a1: "notifying (queue_step started_queue (Call (js ''49@s.whatsapp.net'') (js ''c1'')))
       = [js ''49@s.whatsapp.net'' @ js ''_'' @ js ''c1'']"
    using t1 h by simp
  have a2: "begun (foldl queue_step ?q [Settle 0, Tick, Settle 0])
       = [ProcessWhatsAppMessage hello_key (Some (js ''hello'')),
          HandleTelegramMessage topic_message]"
    using t1 unfolding d by simp
  have a3: "t_syncMessage started_queue True hello_key (Some (js ''hello''))
       = started_queue\<lparr>messageQueue := [ProcessWhatsAppMessage hello_key (Some (js ''hello''))]\<rparr>"
    using t1 h by simp
  show ?thesis using h m(2) a1 a2 a3 by simp
qed

text \<open>
  A WhatsApp message is queued and the timer starts its task; a call event arrives before
  the task has settled. The call notification is relayed while the queued task executes,
  and it never was in the queue.
\<close>

theorem call_notification_outside_queue_counterexample:
  "executing (foldl queue_step started_queue
       [Push (ProcessWhatsAppMessage hello_key (Some (js ''hello''))), Tick,
        Call (js ''49@s.whatsapp.net'') (js ''c1'')])
     = [ProcessWhatsAppMessage hello_key (Some (js ''hello''))]
   \<and> notifying (foldl queue_step started_queue
       [Push (ProcessWhatsAppMessage hello_key (Some (js ''hello''))), Tick,
        Call (js ''49@s.whatsapp.net'') (js ''c1'')])
     = [js ''49@s.whatsapp.net_c1'']
   \<and> pushed [Push (ProcessWhatsAppMessage hello_key (Some (js ''hello''))), Tick,
        Call (js ''49@s.whatsapp.net'') (js ''c1'')]
     = [ProcessWhatsAppMessage hello_key (Some (js ''hello''))]"
  by (simp add: started_queue_def new_relay_queue_def js_def Let_def)

subsection \<open>Contact names\<close>

lemma kept_refl: "kept s s"
  by (simp add: kept_def)

lemma kept_trans: "kept s s1 \<Longrightarrow> kept s1 s2 \<Longrightarrow> kept s s2"
  unfolding kept_def by blast

lemma set_updateOne: "set (updateOne f d xs) \<subseteq> insert d (set xs)"
  by (induction xs) auto

lemma kept_emit: "kept s (emit e s)"
  by (simp add: kept_def emit_def)

lemma kept_emit_right: "kept s s' \<Longrightarrow> kept s (emit e s')"
  by (simp add: kept_def emit_def)

lemma kept_saveContactMapping:
  "isValidContactName name phone \<Longrightarrow> kept s (saveContactMapping s phone name ok)"
  using set_updateOne [of "ContactFilter phone" "ContactDoc phone name" "collection s"]
  by (cases ok) (auto simp: kept_def saveContactMapping_def emit_def Let_def)

lemma contactName_of_valid:
  "truthy (contactName_of contact phone) \<Longrightarrow>
   isValidContactName (the (contactName_of contact phone)) phone"
  by (auto simp: contactName_of_def split: if_splits)

lemma kept_syncContacts_loop:
  "syncContacts_loop s n entries = (s', n') \<Longrightarrow> kept s s'"
proof (induction s n entries arbitrary: s' n' rule: syncContacts_loop.induct)
  case (1 s syncedCount)
  then show ?case by (simp add: kept_refl)
next
  case (2 s syncedCount jid contact write_ok rest)
  show ?case
  proof (cases "jid = [] \<or> jid = js ''status@broadcast'' \<or> contact = None")
    case True
    then show ?thesis using 2 by simp
  next
    case False
    let ?phone = "split_first jid at_sign"
    let ?cn = "contactName_of (the contact) ?phone"
    show ?thesis
    proof (cases "truthy ?cn \<and> contactMappings s ?phone \<noteq> ?cn")
      case True
      let ?s1 = "emit (Log Debug) (saveContactMapping s ?phone (the ?cn) write_ok)"
      have r: "syncContacts_loop ?s1 (Suc syncedCount) rest = (s', n')"
        using "2.prems" False True by (simp add: Let_def)
      have k1: "kept s ?s1"
        using True contactName_of_valid kept_saveContactMapping kept_emit_right by blast
      have k2: "kept ?s1 s'"
        using "2.IH"(2) [OF False refl refl True r] .
      show ?thesis using kept_trans [OF k1 k2] .
    next
      case F2: False
      have r: "syncContacts_loop s syncedCount rest = (s', n')"
        using "2.prems" False F2 by (auto simp: Let_def)
      show ?thesis using "2.IH"(3) [OF False refl refl F2 r] .
    qed
  qed
qed


lemma kept_contacts_update_loop:
  "contacts_update_loop s n chatId contacts = (s', n') \<Longrightarrow> kept s s'"
proof (induction s n chatId contacts arbitrary: s' n' rule: contacts_update_loop.induct)
  case (1 s updatedCount chatId)
  then show ?case by (simp add: kept_refl)
next
  case (2 s updatedCount chatId contact write_ok edit_ok rest)
  let ?phone = "split_first (the (c_id contact)) at_sign"
  let ?nm = "the (c_name contact)"
  show ?case
  proof (cases "truthy (c_id contact) \<and> truthy (c_name contact)")
    case False
    then show ?thesis using 2 by auto
  next
    case True
    show ?thesis
    proof (cases "isValidContactName ?nm ?phone \<and> contactMappings s ?phone \<noteq> c_name contact")
      case F2: False
      have r: "contacts_update_loop s updatedCount chatId rest = (s', n')"
        using "2.prems" True F2 by (auto simp: Let_def)
      show ?thesis using "2.IH"(2) [OF True refl refl F2 r] .
    next
      case T2: True
      let ?s1 = "emit (Log Info) (saveContactMapping s ?phone ?nm write_ok)"
      let ?s2 = "(case chatMappings ?s1 (the (c_id contact)) of
                   None \<Rightarrow> ?s1
                 | Some topicId \<Rightarrow>
                     let s' = emit (TgEditForumTopic (ConfigChat chatId) topicId ?nm) ?s1
                     in if edit_ok then emit (Log Info) s' else emit (Log Debug) s')"
      have r: "contacts_update_loop ?s2 (Suc updatedCount) chatId rest = (s', n')"
        using "2.prems" True T2 by (simp add: Let_def)
      have k1: "kept s ?s1"
        using T2 kept_saveContactMapping kept_emit_right by blast
      have k12: "kept ?s1 ?s2"
        by (auto simp: Let_def kept_refl kept_emit kept_emit_right split: option.splits)
      have k2: "kept ?s2 s'"
        using "2.IH"(1) [OF True refl refl T2 refl refl refl r] .
      show ?thesis using kept_trans [OF kept_trans [OF k1 k12] k2] .
    qed
  qed
qed

lemma kept_contacts_upsert_loop:
  "contacts_upsert_loop s n contacts = (s', n') \<Longrightarrow> kept s s'"
proof (induction s n contacts arbitrary: s' n' rule: contacts_upsert_loop.induct)
  case (1 s newCount)
  then show ?case by (simp add: kept_refl)
next
  case (2 s newCount contact write_ok rest)
  let ?phone = "split_first (the (c_id contact)) at_sign"
  let ?nm = "the (c_name contact)"
  show ?case
  proof (cases "truthy (c_id contact) \<and> truthy (c_name contact)")
    case False
    then show ?thesis using 2 by auto
  next
    case True
    show ?thesis
    proof (cases "isValidContactName ?nm ?phone \<and> contactMappings s ?phone = None")
      case F2: False
      have r: "contacts_upsert_loop s newCount rest = (s', n')"
        using "2.prems" True F2 by (auto simp: Let_def)
      show ?thesis using "2.IH"(2) [OF True refl F2 r] .
    next
      case T2: True
      let ?s1 = "emit (Log Info) (saveContactMapping s ?phone ?nm write_ok)"
      have r: "contacts_upsert_loop ?s1 (Suc newCount) rest = (s', n')"
        using "2.prems" True T2 by (simp add: Let_def)
      have k1: "kept s ?s1"
        using T2 kept_saveContactMapping kept_emit_right by blast
      have k2: "kept ?s1 s'"
        using "2.IH"(1) [OF True refl T2 r] .
      show ?thesis using kept_trans [OF k1 k2] .
    qed
  qed
qed

lemma kept_syncContacts: "kept s (syncContacts s connected entries)"
proof (cases connected)
  case False
  then show ?thesis by (simp add: syncContacts_def kept_emit)
next
  case True
  obtain s1 n where l: "syncContacts_loop (emit (Log Debug) (emit (Log Info) s)) 0 entries = (s1, n)"
    by (cases "syncContacts_loop (emit (Log Debug) (emit (Log Info) s)) 0 entries") auto
  have k0: "kept s (emit (Log Debug) (emit (Log Info) s))"
    by (simp add: kept_emit kept_emit_right)
  have k1: "kept s s1"
    using kept_trans [OF k0 kept_syncContacts_loop [OF l]] .
  show ?thesis using True l k1
    by (simp add: syncContacts_def Let_def kept_emit_right)
qed

lemma kept_contacts_update_handler: "kept s (contacts_update_handler s chatId contacts)"
proof -
  obtain s1 n where l: "contacts_update_loop s 0 chatId contacts = (s1, n)"
    by (cases "contacts_update_loop s 0 chatId contacts") auto
  show ?thesis using l kept_contacts_update_loop [OF l]
    by (simp add: contacts_update_handler_def kept_emit_right)
qed

lemma kept_contacts_upsert_handler: "kept s (contacts_upsert_handler s contacts)"
proof -
  obtain s1 n where l: "contacts_upsert_loop s 0 contacts = (s1, n)"
    by (cases "contacts_upsert_loop s 0 contacts") auto
  show ?thesis using l kept_contacts_upsert_loop [OF l]
    by (simp add: contacts_upsert_handler_def kept_emit_right)
qed

lemma isValidContactName_validated:
  "isValidContactName name phone \<Longrightarrow>
   name \<noteq> [] \<and> name \<noteq> phone \<and> \<not> startsWith name (js ''+'') \<and> 2 < length name
     \<and> \<not> list_all is_digit name"
  by (auto simp: isValidContactName_def all_digits_def)

text \<open>
  C10. A display name that contact sync, the \<open>contacts.update\<close> handler or the
  \<open>contacts.upsert\<close> handler leaves in \<open>contactMappings\<close> or in a contact document, and
  that was not there before, is non-empty, differs from the phone number it is stored for,
  does not start with \<open>+\<close>, is longer than two code units and is not made of digits only.
\<close>

theorem stored_contact_names_validated:
  assumes "s' = syncContacts s connected contactEntries
           \<or> s' = contacts_update_handler s chatId updated
           \<or> s' = contacts_upsert_handler s upserted"
    and "contactMappings s' phone = Some name \<or> ContactDoc phone name \<in> set (collection s')"
  shows "contactMappings s phone = Some name \<or> ContactDoc phone name \<in> set (collection s)
         \<or> (name \<noteq> [] \<and> name \<noteq> phone \<and> \<not> startsWith name (js ''+'') \<and> 2 < length name
              \<and> \<not> list_all is_digit name)"
proof -
  have "kept s s'"
    using assms(1) kept_syncContacts kept_contacts_update_handler kept_contacts_upsert_handler
    by blast
  then have "contactMappings s phone = Some name \<or> ContactDoc phone name \<in> set (collection s)
             \<or> isValidContactName name phone"
    using assms(2) unfolding kept_def by blast
  then show ?thesis using isValidContactName_validated by blast
qed

theorem stored_contact_names_validated_witness:
  "contactMappings (syncContacts connected_bridge True [(js ''491@s.whatsapp.net'', Some alice, True)])
     (js ''491'') = Some (js ''Alice'')
   \<and> js ''Alice'' \<noteq> [] \<and> js ''Alice'' \<noteq> js ''491'' \<and> \<not> startsWith (js ''Alice'') (js ''+'')
   \<and> 2 < length (js ''Alice'') \<and> \<not> list_all is_digit (js ''Alice'')"
proof -
  have h: "contactMappings
             (syncContacts connected_bridge True [(js ''491@s.whatsapp.net'', Some alice, True)])
             (js ''491'') = Some (js ''Alice'')"
    by (simp add: syncContacts_def saveContactMapping_def emit_def connected_bridge_def new_bridge_def Let_def
          split_first_def at_sign_def contactName_of_def isValidContactName_def startsWith_def
          all_digits_def is_digit_def alice_def js_def)
  have n: "contactMappings connected_bridge (js ''491'') \<noteq> Some (js ''Alice'')
           \<and> ContactDoc (js ''491'') (js ''Alice'') \<notin> set (collection connected_bridge)"
    by (simp add: connected_bridge_def new_bridge_def)
  show ?thesis
    using h n stored_contact_names_validated [OF disjI1 [OF refl] disjI1 [OF h]] by blast
qed

subsection \<open>Topic lifecycle\<close>

lemma chat_keys_deleteOne_subset:
  "set (chat_keys (deleteOne (ChatFilter j) ds)) \<subseteq> set (chat_keys ds)"
proof (induction ds)
  case Nil then show ?case by simp
next
  case (Cons d ds)
  then show ?case by (cases d) auto
qed


lemma getOrCreateTopic_probe_ok:
  "chatMappings s chatJid = Some topicId \<Longrightarrow> env_sendMessage env = Some message_id \<Longrightarrow>
   env_deleteMessage env \<Longrightarrow>
   getOrCreateTopic s env chatJid =
     (Returned (Some topicId),
      s\<lparr>trace := trace s @ [TgSendMessage (ConfigChat (env_chatId env)) probe_text (Some topicId),
                             TgDeleteMessage (ConfigChat (env_chatId env)) message_id]\<rparr>)"
  by (simp add: getOrCreateTopic_def verifyTopicExists_def emit_def Let_def)


lemma collection_assigned_topic_name_and_icon:
  "topic_name_and_icon s env chatJid = (topicName, iconColor, s1) \<Longrightarrow>
   collection_assigned s1 = collection_assigned s"
  by (auto simp: topic_name_and_icon_def emit_def Let_def split: if_splits option.splits)

lemma getOrCreateTopic_create_ok:
  "truthy (env_chatId env) \<Longrightarrow> \<not> includes_js (the (env_chatId env)) (js ''YOUR_CHAT_ID'') \<Longrightarrow>
   env_createForumTopic env = Some message_thread_id \<Longrightarrow> env_updateOne env \<Longrightarrow>
   collection_assigned s \<Longrightarrow>
   getOrCreateTopic_create s env chatJid = (r, s') \<Longrightarrow>
   r = Returned (Some message_thread_id) \<and> chatMappings s' chatJid = Some message_thread_id
   \<and> ChatDoc chatJid message_thread_id \<in> set (collection s')"
proof -
  assume a: "truthy (env_chatId env)" "\<not> includes_js (the (env_chatId env)) (js ''YOUR_CHAT_ID'')"
    "env_createForumTopic env = Some message_thread_id" "env_updateOne env"
    "getOrCreateTopic_create s env chatJid = (r, s')"
  assume c: "collection_assigned s"
  obtain topicName iconColor s1 where n: "topic_name_and_icon s env chatJid = (topicName, iconColor, s1)"
    by (cases "topic_name_and_icon s env chatJid") auto
  have c1: "collection_assigned s1"
    using collection_assigned_topic_name_and_icon [OF n] c by simp
  show ?thesis
    using a n c1 in_set_updateOne
    by (auto simp: getOrCreateTopic_create_def saveChatMapping_def emit_def Let_def)
qed






text \<open>
  A second call that begins after the first has ended finds the mapping, probes it and
  returns the same topic.
\<close>

lemma getOrCreateTopic_second_call_reuses:
  assumes "truthy (env_chatId env)"
    and "\<not> includes_js (the (env_chatId env)) (js ''YOUR_CHAT_ID'')"
    and "env_createForumTopic env = Some message_thread_id" and "env_updateOne env"
    and "collection_assigned s" and "chatMappings s chatJid = None"
    and "getOrCreateTopic s env chatJid = (r, s')"
    and "env_sendMessage env' = Some message_id" and "env_deleteMessage env'"
  shows "r = Returned (Some message_thread_id)
       \<and> getOrCreateTopic s' env' chatJid =
           (Returned (Some message_thread_id),
            s'\<lparr>trace := trace s' @
               [TgSendMessage (ConfigChat (env_chatId env')) probe_text (Some message_thread_id),
                TgDeleteMessage (ConfigChat (env_chatId env')) message_id]\<rparr>)"
proof -
  have c: "getOrCreateTopic_create s env chatJid = (r, s')"
    using assms(6,7) by (simp add: getOrCreateTopic_def)
  note k = getOrCreateTopic_create_ok [OF assms(1-5) c]
  show ?thesis
    using k getOrCreateTopic_probe_ok [of s' chatJid message_thread_id env' message_id] assms(8,9)
    by simp
qed


subsection \<open>Overlapping calls\<close>

text \<open>
  Run alone, with the answers of an environment, the suspended reading of
  \<open>getOrCreateTopic\<close> ends as the sequential one does.
\<close>

lemma run_alone_Finished: "run_alone n s env chatJid (Finished c) = (Finished c, s)"
  by (induction n) simp_all

lemma run_alone_numeral:
  "run_alone (numeral k) s env chatJid p =
     (case resume s (env_chatId env) chatJid p (respond env p) of
        (p', s') \<Rightarrow> run_alone (pred_numeral k) s' env chatJid p')"
  by (simp add: numeral_eq_Suc)

lemma run_alone_add:
  "run_alone (m + n) s env chatJid p =
     (case run_alone m s env chatJid p of (p', s') \<Rightarrow> run_alone n s' env chatJid p')"
  by (induction m arbitrary: s p) (simp_all split: prod.splits)

lemma run_alone_more:
  "run_alone m s env chatJid p = (Finished c, s') \<Longrightarrow>
   run_alone (m + k) s env chatJid p = (Finished c, s')"
  by (simp add: run_alone_add run_alone_Finished)

lemma getOrCreateTopic_create_tail:
  "getOrCreateTopic_create s env chatJid =
     (if \<not> truthy (env_chatId env) \<or> includes_js (the (env_chatId env)) (js ''YOUR_CHAT_ID'')
        then (Returned None, emit (Log Error) s)
      else
        case topic_name_and_icon s env chatJid of
          (topicName, iconColor, s1) \<Rightarrow>
            created_tail
              (emit (TgCreateForumTopic (ConfigChat (env_chatId env)) topicName iconColor) s1)
              env chatJid)"
  by (simp add: getOrCreateTopic_create_def created_tail_def Let_def split: prod.splits)

lemma run_alone_tail:
  "run_alone 3 s2 env chatJid Await_createForumTopic =
     (Finished (fst (created_tail s2 env chatJid)), snd (created_tail s2 env chatJid))"
proof (cases "env_createForumTopic env")
  case None
  then show ?thesis
    by (simp add: eval_nat_numeral created_tail_def run_alone_Finished)
next
  case (Some message_thread_id)
  show ?thesis
  proof (cases "collection_assigned s2")
    case False
    then show ?thesis using Some
      by (simp add: eval_nat_numeral created_tail_def saveChatMapping_def mapping_saved_def
            emit_def Let_def run_alone_Finished)
  next
    case assigned: True
    show ?thesis
    proof (cases "env_updateOne env")
      case True
      then show ?thesis using Some assigned
        by (simp add: eval_nat_numeral created_tail_def saveChatMapping_def mapping_saved_def
              emit_def Let_def)
    next
      case False
      then show ?thesis using Some assigned
        by (simp add: eval_nat_numeral created_tail_def saveChatMapping_def mapping_saved_def
              emit_def Let_def)
    qed
  qed
qed

lemma run_alone_create:
  "run_alone 4 (snd (begin_create s (env_chatId env) chatJid)) env chatJid
     (fst (begin_create s (env_chatId env) chatJid))
   = (Finished (fst (getOrCreateTopic_create s env chatJid)),
      snd (getOrCreateTopic_create s env chatJid))"
proof (cases "\<not> truthy (env_chatId env) \<or> includes_js (the (env_chatId env)) (js ''YOUR_CHAT_ID'')")
  case True
  then show ?thesis
    by (simp add: begin_create_def getOrCreateTopic_create_tail run_alone_Finished)
next
  case ok: False
  obtain topicName iconColor s1 where n:
    "topic_name_and_icon s env chatJid = (topicName, iconColor, s1)"
    by (cases "topic_name_and_icon s env chatJid") auto
  let ?s2 = "emit (TgCreateForumTopic (ConfigChat (env_chatId env)) topicName iconColor) s1"
  have rhs: "getOrCreateTopic_create s env chatJid = created_tail ?s2 env chatJid"
    using ok n by (simp add: getOrCreateTopic_create_tail)
  have three: "run_alone 3 ?s2 env chatJid Await_createForumTopic
           = (Finished (fst (created_tail ?s2 env chatJid)), snd (created_tail ?s2 env chatJid))"
    by (rule run_alone_tail)
  show ?thesis
  proof (cases "chatJid \<noteq> js ''status@broadcast'' \<and> chatJid \<noteq> js ''call@broadcast''
                \<and> endsWith chatJid (js ''@g.us'')")
    case True
    have b: "begin_create s (env_chatId env) chatJid
               = (Await_groupMetadata, emit (WaGroupMetadata chatJid) s)"
      using ok True by (simp add: begin_create_def)
    have one: "resume (emit (WaGroupMetadata chatJid) s) (env_chatId env) chatJid
                 Await_groupMetadata (respond env Await_groupMetadata)
               = (Await_createForumTopic, ?s2)"
      using n True
      by (cases "env_groupMetadata env")
         (auto simp: topic_name_and_icon_def issue_createForumTopic_def emit_def)
    have e4: "(4::nat) = Suc 3" by simp
    have "run_alone (Suc 3) (emit (WaGroupMetadata chatJid) s) env chatJid Await_groupMetadata
            = run_alone 3 ?s2 env chatJid Await_createForumTopic"
      by (simp only: run_alone.simps one prod.case)
    then show ?thesis unfolding e4 using b three rhs by simp
  next
    case False
    have b: "begin_create s (env_chatId env) chatJid = (Await_createForumTopic, ?s2)"
      using ok False n
      by (auto simp: begin_create_def topic_name_and_icon_def issue_createForumTopic_def Let_def
            split: if_splits)
    have "run_alone (3 + 1) ?s2 env chatJid Await_createForumTopic
           = (Finished (fst (created_tail ?s2 env chatJid)), snd (created_tail ?s2 env chatJid))"
      using run_alone_more [OF three] .
    then show ?thesis using b rhs by simp
  qed
qed


lemma run_alone_create_pair:
  "begin_create s (env_chatId env) chatJid = (p, s1) \<Longrightarrow>
   run_alone 4 s1 env chatJid p
     = (Finished (fst (getOrCreateTopic_create s env chatJid)),
        snd (getOrCreateTopic_create s env chatJid))"
  using run_alone_create [of s env chatJid] by simp

lemma run_alone_deleteOne:
  "run_alone 5 s4 env chatJid Await_deleteOne =
     (if env_deleteOne env
        then (Finished (fst (getOrCreateTopic_create
                (s4\<lparr>collection := deleteOne (ChatFilter chatJid) (collection s4)\<rparr>) env chatJid)),
              snd (getOrCreateTopic_create
                (s4\<lparr>collection := deleteOne (ChatFilter chatJid) (collection s4)\<rparr>) env chatJid))
      else (Finished Threw, s4))"
proof -
  have e5: "(5::nat) = Suc 4" by simp
  show ?thesis
    unfolding e5
    by (simp only: run_alone.simps respond.simps resume.simps split: if_splits)
       (auto simp: run_alone_create_pair run_alone_Finished split: prod.splits)
qed

lemma run_alone_probe_failed:
  "run_alone 5 (snd (probe_failed s1 chatJid)) env chatJid (fst (probe_failed s1 chatJid)) =
     (let s2 = emit (Log Warn) s1;
          s3 = s2\<lparr>chatMappings := (chatMappings s2)(chatJid := None)\<rparr>;
          s4 = emit (DbDeleteOne (ChatFilter chatJid)) s3
      in if \<not> collection_assigned s3 then (Finished Threw, s3)
         else if env_deleteOne env
           then (Finished (fst (getOrCreateTopic_create
                   (s4\<lparr>collection := deleteOne (ChatFilter chatJid) (collection s4)\<rparr>) env chatJid)),
                 snd (getOrCreateTopic_create
                   (s4\<lparr>collection := deleteOne (ChatFilter chatJid) (collection s4)\<rparr>) env chatJid))
         else (Finished Threw, s4))"
  by (simp add: probe_failed_def Let_def run_alone_deleteOne run_alone_Finished)

lemma run_alone_getOrCreateTopic:
  "run_alone 8 s env chatJid Start =
     (Finished (fst (getOrCreateTopic s env chatJid)), snd (getOrCreateTopic s env chatJid))"
proof (cases "chatMappings s chatJid")
  case None
  obtain p s1 where b: "begin_create s (env_chatId env) chatJid = (p, s1)"
    by (cases "begin_create s (env_chatId env) chatJid") auto
  have "run_alone (4 + 3) s1 env chatJid p
        = (Finished (fst (getOrCreateTopic_create s env chatJid)),
           snd (getOrCreateTopic_create s env chatJid))"
    using run_alone_more [OF run_alone_create_pair [OF b]] .
  moreover have "run_alone 8 s env chatJid Start = run_alone 7 s1 env chatJid p"
    by (subst run_alone_numeral) (simp add: None b)
  ultimately show ?thesis
    using None by (simp add: getOrCreateTopic_def)
next
  case (Some topicId)
  let ?sa = "emit (TgSendMessage (ConfigChat (env_chatId env)) probe_text (Some topicId)) s"
  have first: "run_alone 8 s env chatJid Start
                 = run_alone 7 ?sa env chatJid (Await_sendMessage topicId)"
    by (subst run_alone_numeral) (simp add: Some)
  show ?thesis
  proof (cases "env_sendMessage env")
    case None
    have pf: "run_alone (5 + 1) (snd (probe_failed ?sa chatJid)) env chatJid
                (fst (probe_failed ?sa chatJid))
              = (Finished (fst (getOrCreateTopic s env chatJid)),
                 snd (getOrCreateTopic s env chatJid))"
      using Some None
      by (intro run_alone_more)
         (simp add: run_alone_probe_failed getOrCreateTopic_def verifyTopicExists_def Let_def)
    have "run_alone 7 ?sa env chatJid (Await_sendMessage topicId)
            = run_alone (5 + 1) (snd (probe_failed ?sa chatJid)) env chatJid
                (fst (probe_failed ?sa chatJid))"
      by (subst run_alone_numeral) (simp add: None split: prod.splits)
    then show ?thesis using first pf by simp
  next
    case (Some message_id)
    note sm = Some
    let ?sb = "emit (TgDeleteMessage (ConfigChat (env_chatId env)) message_id) ?sa"
    have second: "run_alone 7 ?sa env chatJid (Await_sendMessage topicId)
                    = run_alone 6 ?sb env chatJid (Await_deleteMessage topicId)"
      by (subst run_alone_numeral) (simp add: sm)
    show ?thesis
    proof (cases "env_deleteMessage env")
      case True
      have "run_alone 6 ?sb env chatJid (Await_deleteMessage topicId)
              = (Finished (Returned (Some topicId)), ?sb)"
        by (subst run_alone_numeral) (simp add: True run_alone_Finished)
      then show ?thesis
        using first second True sm \<open>chatMappings s chatJid = Some topicId\<close>
        by (simp add: getOrCreateTopic_def verifyTopicExists_def Let_def)
    next
      case False
      have "run_alone 6 ?sb env chatJid (Await_deleteMessage topicId)
              = run_alone 5 (snd (probe_failed ?sb chatJid)) env chatJid
                  (fst (probe_failed ?sb chatJid))"
        by (subst run_alone_numeral) (simp add: False split: prod.splits)
      then show ?thesis
        using first second False sm \<open>chatMappings s chatJid = Some topicId\<close>
        by (simp add: run_alone_probe_failed getOrCreateTopic_def verifyTopicExists_def Let_def)
    qed
  qed
qed

lemma distinct_chat_keys_deleteOne:
  "distinct (chat_keys ds) \<Longrightarrow> distinct (chat_keys (deleteOne (ChatFilter j) ds))"
proof (induction ds)
  case Nil then show ?case by simp
next
  case (Cons d ds)
  then show ?case using chat_keys_deleteOne_subset [of j ds] by (cases d) auto
qed

lemma collection_begin_create:
  "collection (snd (begin_create s chatId chatJid)) = collection s"
  by (simp add: begin_create_def issue_createForumTopic_def emit_def Let_def)

lemma collection_probe_failed:
  "collection (snd (probe_failed s chatJid)) = collection s"
  by (simp add: probe_failed_def emit_def Let_def)

lemma resume_distinct:
  assumes "distinct (chat_keys (collection s))"
  shows "distinct (chat_keys (collection (snd (resume s chatId chatJid p r))))"
proof (cases p)
  case Start
  then show ?thesis using assms
    by (cases "chatMappings s chatJid") (simp_all add: collection_begin_create emit_def)
next
  case (Await_sendMessage topicId)
  then show ?thesis using assms
    by (cases r) (simp_all add: collection_probe_failed emit_def)
next
  case (Await_deleteMessage topicId)
  then show ?thesis using assms
    by (cases r) (simp_all add: collection_probe_failed)
next
  case Await_deleteOne
  then show ?thesis using assms
    by (cases r) (simp_all add: collection_begin_create distinct_chat_keys_deleteOne)
next
  case Await_groupMetadata
  then show ?thesis using assms
    by (cases r) (simp_all add: issue_createForumTopic_def emit_def)
next
  case Await_createForumTopic
  then show ?thesis using assms
    by (cases r) (simp_all add: mapping_saved_def emit_def Let_def)
next
  case (Await_updateOne message_thread_id)
  then show ?thesis using assms
    by (simp add: mapping_saved_def emit_def Let_def distinct_chat_keys_updateOne)
next
  case (Await_sendWelcomeMessage message_thread_id)
  then show ?thesis using assms by simp
next
  case (Finished c)
  then show ?thesis using assms by simp
qed

lemma deliver_distinct:
  "distinct (chat_keys (collection (fst sc))) \<Longrightarrow>
   distinct (chat_keys (collection (fst (deliver chatId sc ev))))"
proof -
  assume a: "distinct (chat_keys (collection (fst sc)))"
  obtain s calls where sc: "sc = (s, calls)" by (cases sc) auto
  obtain i r where ev: "ev = (i, r)" by (cases ev) auto
  show ?thesis
    using a resume_distinct [of s chatId "fst (calls ! i)" "snd (calls ! i)" r]
    by (auto simp: sc ev split: prod.splits)
qed

text \<open>
  However the calls on one bridge overlap, the collection keeps at most one chat document
  for each \<open>whatsappJid\<close>.
\<close>

lemma overlapping_calls_one_mapping:
  "distinct (chat_keys (collection (fst sc))) \<Longrightarrow>
   distinct (chat_keys (collection (fst (foldl (deliver chatId) sc evs))))"
  by (induction evs arbitrary: sc) (simp_all add: deliver_distinct)

text \<open>
  C2, at two first-contact events for one unseen key whose calls overlap, on a bridge
  with \<open>this.collection\<close> assigned and an empty database. Each call
  finds no mapping before the other has saved one, so each creates a topic: two
  \<open>createForumTopic\<close> calls are made, the first call returns topic 11 and the second topic
  12, and the one mapping that cache and collection hold afterwards is that of the call
  that saved last.
\<close>

theorem overlapping_first_contacts_create_two_topics: "(case foldl (deliver (Some (js ''-100'')))
     (connected_bridge, [(js ''1@s.whatsapp.net'', Start), (js ''1@s.whatsapp.net'', Start)])
     [(0, Resolved), (1, Resolved), (0, Topic 11), (1, Topic 12), (0, Resolved), (1, Resolved),
      (0, Resolved), (1, Resolved)] of (s, calls) \<Rightarrow>
   map snd calls = [Finished (Returned (Some 11)), Finished (Returned (Some 12))]
   \<and> chatMappings s (js ''1@s.whatsapp.net'') = Some 12
   \<and> collection s = [ChatDoc (js ''1@s.whatsapp.net'') 12]
   \<and> trace s =
       [TgCreateForumTopic (ConfigChat (Some (js ''-100''))) (js ''+1'') 0x7ABA3C,
        TgCreateForumTopic (ConfigChat (Some (js ''-100''))) (js ''+1'') 0x7ABA3C,
        DbUpdateOne (ChatFilter (js ''1@s.whatsapp.net'')) (ChatDoc (js ''1@s.whatsapp.net'') 11),
        DbUpdateOne (ChatFilter (js ''1@s.whatsapp.net'')) (ChatDoc (js ''1@s.whatsapp.net'') 12),
        Log Debug, Log Info, Invoke (SendWelcomeMessage 11 (js ''1@s.whatsapp.net'') False),
        Log Debug, Log Info, Invoke (SendWelcomeMessage 12 (js ''1@s.whatsapp.net'') False)])"
  by (simp add: begin_create_def issue_createForumTopic_def mapping_saved_def emit_def
        connected_bridge_def new_bridge_def Let_def split_first_def at_sign_def endsWith_def
        startsWith_def js_def)

end
